theory Spec2Isabelle
  imports Main "HOL-Library.Sublist" "HOL-Library.AList"
begin

section \<open>Text: the string operations the sources rely on\<close>

text \<open>
  Process output, registry paths and type names are Python \<open>str\<close> values. They are
  modelled as \<open>string\<close> and read as 7-bit ASCII text: only ASCII letters have a case,
  only ASCII white space is white space, only ASCII letters, digits and the underscore are
  word characters.
\<close>

definition upper_letters :: string where
  "upper_letters = ''ABCDEFGHIJKLMNOPQRSTUVWXYZ''"

definition lower_letters :: string where
  "lower_letters = ''abcdefghijklmnopqrstuvwxyz''"

definition digit_chars :: string where
  "digit_chars = ''0123456789''"

definition lower_chr :: "char \<Rightarrow> char" where
  "lower_chr c = (case map_of (zip upper_letters lower_letters) c of Some d \<Rightarrow> d | None \<Rightarrow> c)"

definition upper_chr :: "char \<Rightarrow> char" where
  "upper_chr c = (case map_of (zip lower_letters upper_letters) c of Some d \<Rightarrow> d | None \<Rightarrow> c)"

definition lower :: "string \<Rightarrow> string" where
  "lower s = map lower_chr s"

definition upper :: "string \<Rightarrow> string" where
  "upper s = map upper_chr s"

text \<open>\<open>str.capitalize()\<close>: first character upper-cased, the rest lower-cased.\<close>

definition capitalize :: "string \<Rightarrow> string" where
  "capitalize s = (case s of [] \<Rightarrow> [] | c # cs \<Rightarrow> upper_chr c # lower cs)"

text \<open>The characters \<open>str.isspace()\<close> accepts: TAB, LF, VT, FF, CR, FS, GS, RS, US, space.\<close>

definition space_chars :: string where
  "space_chars = [CHR 0x09, CHR 0x0A, CHR 0x0B, CHR 0x0C, CHR 0x0D,
                  CHR 0x1C, CHR 0x1D, CHR 0x1E, CHR 0x1F, CHR 0x20]"

definition is_space :: "char \<Rightarrow> bool" where
  "is_space c = (c \<in> set space_chars)"

definition is_word :: "char \<Rightarrow> bool" where
  "is_word c = (c \<in> set (upper_letters @ lower_letters @ digit_chars @ ''_''))"

definition strip :: "string \<Rightarrow> string" where
  "strip s = rev (dropWhile is_space (rev (dropWhile is_space s)))"

text \<open>Python's \<open>needle in text\<close> on strings.\<close>

fun contains :: "string \<Rightarrow> string \<Rightarrow> bool" where
  "contains needle [] = (needle = [])"
| "contains needle (c # cs) = (prefix needle (c # cs) \<or> contains needle cs)"

text \<open>\<open>str(n)\<close> for an integer, and for the \<open>None\<close> a missing return code is.\<close>

definition digit_of :: "nat \<Rightarrow> char" where
  "digit_of d = digit_chars ! d"

function str_nat :: "nat \<Rightarrow> string" where
  "str_nat n = (if n < 10 then [digit_of n] else str_nat (n div 10) @ [digit_of (n mod 10)])"
  by pat_completeness auto
termination
  by (relation "measure (\<lambda>n. n)") auto

declare str_nat.simps [simp del]

definition str_int :: "int \<Rightarrow> string" where
  "str_int i = (if i < 0 then CHR ''-'' # str_nat (nat (- i)) else str_nat (nat i))"

definition str_rc :: "int option \<Rightarrow> string" where
  "str_rc rc = (case rc of None \<Rightarrow> ''None'' | Some i \<Rightarrow> str_int i)"


section \<open>Regular expressions: the fragment of \<open>re\<close> the error maps use\<close>

text \<open>
  The patterns of the three \<open>ERROR_MAP\<close> tables are built from literal characters,
  \<open>.\<close>, \<open>\s\<close>, a character set, \<open>\b\<close>, an optional group, and \<open>*?\<close> or \<open>+\<close> applied to a
  single character class. \<open>re.search\<close> only asks whether some match exists, so lazy and
  greedy repetition agree.
\<close>

datatype cclass = Lit char | Dot | Space | OneOf string

datatype regex =
    Eps
  | Sym cclass
  | Bnd
  | Many cclass
  | Opt regex
  | Seq regex regex

fun cmatch :: "bool \<Rightarrow> cclass \<Rightarrow> char \<Rightarrow> bool" where
  "cmatch ic (Lit c) d = (if ic then lower_chr c = lower_chr d else c = d)"
| "cmatch ic Dot d = (d \<noteq> CHR 0x0A)"
| "cmatch ic Space d = is_space d"
| "cmatch ic (OneOf cs) d = (if ic then lower_chr d \<in> set (lower cs) else d \<in> set cs)"

text \<open>
  A cursor is the character just consumed (if any) and the text still ahead; \<open>\b\<close> holds
  where exactly one of the two neighbours is a word character.
\<close>

type_synonym cursor = "char option \<times> string"

definition at_boundary :: "char option \<Rightarrow> string \<Rightarrow> bool" where
  "at_boundary p s =
     ((case p of None \<Rightarrow> False | Some c \<Rightarrow> is_word c)
        \<noteq> (case s of [] \<Rightarrow> False | d # _ \<Rightarrow> is_word d))"

text \<open>\<open>step ic r k\<close>: every cursor at which a match of \<open>r\<close> started at \<open>k\<close> can end.\<close>

fun step :: "bool \<Rightarrow> regex \<Rightarrow> cursor \<Rightarrow> cursor list" where
  "step ic Eps k = [k]"
| "step ic (Sym c) (p, []) = []"
| "step ic (Sym c) (p, d # ds) = (if cmatch ic c d then [(Some d, ds)] else [])"
| "step ic Bnd (p, s) = (if at_boundary p s then [(p, s)] else [])"
| "step ic (Many c) (p, []) = [(p, [])]"
| "step ic (Many c) (p, d # ds) =
     (p, d # ds) # (if cmatch ic c d then step ic (Many c) (Some d, ds) else [])"
| "step ic (Opt r) k = k # step ic r k"
| "step ic (Seq a b) k = concat (map (step ic b) (step ic a k))"

fun search :: "bool \<Rightarrow> regex \<Rightarrow> char option \<Rightarrow> string \<Rightarrow> bool" where
  "search ic r p [] = (step ic r (p, []) \<noteq> [])"
| "search ic r p (d # ds) = (step ic r (p, d # ds) \<noteq> [] \<or> search ic r (Some d) ds)"

text \<open>\<open>re.search(pattern, text, re.IGNORECASE)\<close> when \<open>ic\<close>, \<open>re.search(pattern, text)\<close> otherwise.\<close>

definition re_search :: "bool \<Rightarrow> regex \<Rightarrow> string \<Rightarrow> bool" where
  "re_search ic r s = search ic r None s"

definition lit :: "string \<Rightarrow> regex" where
  "lit s = foldr (\<lambda>c r. Seq (Sym (Lit c)) r) s Eps"

definition rx :: "regex list \<Rightarrow> regex" where
  "rx rs = foldr Seq rs Eps"

text \<open>\<open>.*?\<close> and \<open>\s+\<close>.\<close>

definition anything :: regex where
  "anything = Many Dot"

definition spaces :: regex where
  "spaces = Seq (Sym Space) (Many Space)"


section \<open>Errors\<close>

text \<open>
  Every exception class the modelled code raises or catches: Python's own, then those of
  \<open>cmd_errors.py\<close>, \<open>reg_errors.py\<close> and \<open>pnp_errors.py\<close>.
\<close>

datatype error =
    ValueError | TypeError | RuntimeError | AssertionError | NotImplementedError | KeyError
  | AttributeError
  | CommandError | AccessDeniedError | UserAbortedError | CommandNotFoundError
  | PowershellDisabledError
  | RegistryError | RegistryOperationAbortedError | RegistryPermissionError
  | RegistryItemNotFoundError | RegistryItemExistsError
  | PnpError | DeviceNotFoundError | DevicePropertyNotFoundError | DevicePropertyExistsError
  | DevicePermissionError | DeviceInvalidOperationError | DeviceOperationAbortedError

text \<open>\<open>except CommandError\<close> catches the class and its subclasses.\<close>

definition is_CommandError :: "error \<Rightarrow> bool" where
  "is_CommandError e =
     (e \<in> set [CommandError, AccessDeniedError, UserAbortedError, CommandNotFoundError,
               PowershellDisabledError])"


section \<open>Registry type codes (\<open>reg.py\<close>)\<close>

definition WINAPI_REG_TYPES :: "(string \<times> int) list" where
  "WINAPI_REG_TYPES =
     [(''REG_NONE'', 0), (''REG_SZ'', 1), (''REG_EXPAND_SZ'', 2), (''REG_BINARY'', 3),
      (''REG_DWORD'', 4), (''REG_DWORD_LITTLE_ENDIAN'', 4), (''REG_DWORD_BIG_ENDIAN'', 5),
      (''REG_LINK'', 6), (''REG_MULTI_SZ'', 7), (''REG_RESOURCE_LIST'', 8),
      (''REG_FULL_RESOURCE_DESCRIPTOR'', 9), (''REG_RESOURCE_REQUIREMENTS_LIST'', 10),
      (''REG_QWORD'', 11), (''REG_QWORD_LITTLE_ENDIAN'', 11)]"

definition REG_VALUE_KINDS :: "(string \<times> int) list" where
  "REG_VALUE_KINDS =
     [(''NONE'', - 1), (''UNKNOWN'', 0), (''STRING'', 1), (''EXPANDSTRING'', 2),
      (''BINARY'', 3), (''DWORD'', 4), (''MULTISTRING'', 7), (''QWORD'', 11)]"

definition REG_VALUE_KIND_NAMES :: "(int \<times> string) list" where
  "REG_VALUE_KIND_NAMES =
     [(- 1, ''NONE''), (0, ''UNKNOWN''), (1, ''STRING''), (2, ''EXPANDSTRING''),
      (3, ''BINARY''), (4, ''DWORD''), (7, ''MULTISTRING''), (11, ''QWORD'')]"

definition REG_FRIENDLY_NAMES :: "(string \<times> string) list" where
  "REG_FRIENDLY_NAMES =
     [(''NONE'', ''None''), (''UNKNOWN'', ''Unknown''), (''STRING'', ''String''),
      (''EXPANDSTRING'', ''ExpandString''), (''BINARY'', ''Binary''), (''DWORD'', ''DWord''),
      (''MULTISTRING'', ''MultiString''), (''QWORD'', ''QWord'')]"

definition SUPPORTED_REG_TYPES :: "int list" where
  "SUPPORTED_REG_TYPES = [- 1, 0, 1, 2, 3, 4, 7, 11]"

text \<open>
  A registry type as callers pass it: an \<open>int\<close>, a \<open>str\<close>, or a value of any other Python
  type (which \<open>normalise\<close> rejects with \<open>TypeError\<close>).
\<close>

datatype regtype = TInt int | TStr string | TOther

text \<open>
  \<open>normalise\<close> and \<open>get_name\<close> take their arguments positionally and return the bare
  result when exactly one was passed, a list otherwise.
\<close>

datatype 'a pyres = Single 'a | Multiple "'a list"

definition unwrap :: "'a list \<Rightarrow> 'a pyres" where
  "unwrap xs = (case xs of [x] \<Rightarrow> Single x | _ \<Rightarrow> Multiple xs)"

text \<open>The body of the loop of \<open>normalise\<close>, for one argument.\<close>

definition normalise_one :: "regtype \<Rightarrow> error + int" where
  "normalise_one t =
     (case
        (case t of
           TInt i \<Rightarrow> Inr i
         | TStr s \<Rightarrow>
             (let u = upper (strip s) in
              if prefix ''REG_'' u then
                (case map_of WINAPI_REG_TYPES u of None \<Rightarrow> Inl ValueError | Some i \<Rightarrow> Inr i)
              else
                (case map_of WINAPI_REG_TYPES (''REG_'' @ u) of
                   Some i \<Rightarrow> Inr i
                 | None \<Rightarrow>
                     (case map_of REG_VALUE_KINDS u of
                        None \<Rightarrow> Inl ValueError
                      | Some i \<Rightarrow> Inr i)))
         | TOther \<Rightarrow> Inl TypeError)
      of Inl e \<Rightarrow> Inl e
       | Inr i \<Rightarrow> Inr (if i \<notin> set SUPPORTED_REG_TYPES then 0 else i))"

fun normalise_loop :: "regtype list \<Rightarrow> error + int list" where
  "normalise_loop [] = Inr []"
| "normalise_loop (t # ts) =
     (case normalise_one t of
        Inl e \<Rightarrow> Inl e
      | Inr i \<Rightarrow> (case normalise_loop ts of Inl e \<Rightarrow> Inl e | Inr is \<Rightarrow> Inr (i # is)))"

definition normalise :: "regtype list \<Rightarrow> error + int pyres" where
  "normalise types = (case normalise_loop types of Inl e \<Rightarrow> Inl e | Inr is \<Rightarrow> Inr (unwrap is))"

text \<open>The body of the loop of \<open>get_name\<close>, for one argument.\<close>

definition get_name_one :: "bool \<Rightarrow> regtype \<Rightarrow> error + string" where
  "get_name_one pretty t =
     (case normalise [t] of
        Inl e \<Rightarrow> Inl e
      | Inr (Multiple _) \<Rightarrow> Inl ValueError
      | Inr (Single i) \<Rightarrow>
          (case map_of REG_VALUE_KIND_NAMES i of
             None \<Rightarrow> Inl ValueError
           | Some n \<Rightarrow>
               if pretty then
                 (case map_of REG_FRIENDLY_NAMES n of None \<Rightarrow> Inl ValueError | Some f \<Rightarrow> Inr f)
               else Inr n))"

fun get_name_loop :: "bool \<Rightarrow> regtype list \<Rightarrow> error + string list" where
  "get_name_loop pretty [] = Inr []"
| "get_name_loop pretty (t # ts) =
     (case get_name_one pretty t of
        Inl e \<Rightarrow> Inl e
      | Inr n \<Rightarrow> (case get_name_loop pretty ts of Inl e \<Rightarrow> Inl e | Inr ns \<Rightarrow> Inr (n # ns)))"

definition get_name :: "regtype list \<Rightarrow> bool \<Rightarrow> error + string pyres" where
  "get_name types pretty =
     (case get_name_loop pretty types of Inl e \<Rightarrow> Inl e | Inr ns \<Rightarrow> Inr (unwrap ns))"


section \<open>Error classifiers\<close>

text \<open>
  Each \<open>check_error\<close> walks its \<open>ERROR_MAP\<close> in insertion order, skips the kinds that are
  not in \<open>errors\<close> (\<open>None\<close>: all of them), and raises the first kind one of whose patterns
  is found. \<open>classify\<close> is that loop; \<open>hit\<close> is the test applied to one pattern.
\<close>

definition classify ::
  "(error \<times> regex list) list \<Rightarrow> (regex \<Rightarrow> bool) \<Rightarrow> error list option \<Rightarrow> error + unit" where
  "classify emap hit errors =
     (let errs = (case errors of None \<Rightarrow> map fst emap | Some es \<Rightarrow> es)
      in case find (\<lambda>(e, pats). e \<in> set errs \<and> list_ex hit pats) emap of
           Some (e, _) \<Rightarrow> Inl e
         | None \<Rightarrow> Inr ())"

definition permission_patterns :: "regex list" where
  "permission_patterns =
     [rx [Bnd, lit ''access'', anything, lit ''not'', spaces, lit ''allowed'', Bnd],
      rx [Bnd, lit ''access'', anything, lit ''denied'', Bnd],
      rx [lit ''PermissionDenied'', Opt (lit ''Exception'')],
      lit ''SecurityException'']"

definition cancelled_patterns :: "regex list" where
  "cancelled_patterns =
     [rx [Bnd, lit ''operation'', anything, lit ''cancel'', Opt (lit ''l''), lit ''ed'', Bnd],
      rx [Bnd, lit ''cancel'', Opt (lit ''l''), lit ''ed'', spaces, lit ''by'', anything,
          lit ''user'', Bnd]]"

subsection \<open>\<open>cmd_errors.py\<close>\<close>

definition CMD_ERROR_MAP :: "(error \<times> regex list) list" where
  "CMD_ERROR_MAP =
     [(AccessDeniedError, permission_patterns),
      (UserAbortedError, cancelled_patterns),
      (CommandNotFoundError,
        [rx [Bnd, lit ''the'', spaces, lit ''term'', anything, lit ''is'', spaces, lit ''not'',
             spaces, lit ''recogni'', Sym (OneOf ''sz''), lit ''ed'', Bnd],
         rx [Bnd, lit ''not'', spaces, lit ''recogni'', Sym (OneOf ''sz''), lit ''ed'', spaces,
             lit ''as'', spaces, lit ''the'', spaces, lit ''name'', spaces, lit ''of'', Bnd],
         rx [lit ''CommandNotFound'', Opt (lit ''Exception'')]]),
      (PowershellDisabledError,
        [rx [Bnd, Opt (rx [lit ''program'', anything, lit ''blocked'']), anything,
             lit ''group'', spaces, lit ''policy'', Bnd],
         rx [Bnd, Opt (rx [lit ''contact'', spaces, lit ''your'', spaces]), lit ''system'',
             spaces, lit ''admin'', Opt (lit ''s''),
             Opt (rx [lit ''istrator'', Opt (lit ''s'')]), Bnd]])]"

text \<open>The return code is accepted and ignored.\<close>

definition cmd_check_error :: "string \<Rightarrow> int option \<Rightarrow> error list option \<Rightarrow> error + unit" where
  "cmd_check_error output rc errors = classify CMD_ERROR_MAP (\<lambda>r. re_search True r output) errors"

subsection \<open>\<open>reg_errors.py\<close>\<close>

definition REG_ERROR_MAP :: "(error \<times> regex list) list" where
  "REG_ERROR_MAP =
     [(RegistryPermissionError, permission_patterns),
      (RegistryItemNotFoundError,
        [rx [Bnd, lit ''cannot'', spaces, lit ''find'', spaces, lit ''path'', Bnd],
         rx [Bnd, lit ''does'', spaces, lit ''not'', spaces, lit ''exist'', Bnd],
         rx [lit ''PathNotFound'', Opt (lit ''Exception'')],
         rx [lit ''ItemNotFound'', Opt (lit ''Exception'')]]),
      (RegistryItemExistsError,
        [rx [Bnd, lit ''already'', spaces, lit ''exists'', Bnd],
         rx [lit ''ResourceExists'', Opt (lit ''Exception'')]])]"

definition reg_check_error :: "string \<Rightarrow> int option \<Rightarrow> error list option \<Rightarrow> error + unit" where
  "reg_check_error output rc errors = classify REG_ERROR_MAP (\<lambda>r. re_search True r output) errors"

subsection \<open>\<open>pnp_errors.py\<close>\<close>

definition PNP_ERROR_MAP :: "(error \<times> regex list) list" where
  "PNP_ERROR_MAP =
     [(DevicePermissionError,
        [rx [Bnd, lit ''access'', anything, lit ''not allowed'', Bnd],
         rx [Bnd, lit ''access'', anything, lit ''denied'', Bnd]]),
      (DeviceOperationAbortedError, cancelled_patterns),
      (DeviceNotFoundError,
        [rx [Bnd, lit ''no'', spaces, lit ''devices'', spaces, lit ''were'', spaces,
             lit ''found'', Bnd]]),
      (DevicePropertyExistsError,
        [rx [Bnd, lit ''already'', spaces, lit ''enabled'', Bnd],
         rx [Bnd, lit ''already'', spaces, lit ''disabled'', Bnd],
         lit ''50''])]"

text \<open>
  Here every pattern is searched in the output, ignoring case, and in \<open>str(rc)\<close>, the
  decimal rendering of the return code (\<open>''None''\<close> when none was given).
\<close>

definition pnp_check_error :: "string \<Rightarrow> int option \<Rightarrow> error list option \<Rightarrow> error + unit" where
  "pnp_check_error output rc errors =
     classify PNP_ERROR_MAP
       (\<lambda>r. re_search True r output \<or> re_search False r (str_rc rc)) errors"


section \<open>The outside world\<close>

text \<open>
  Everything the code does to its surroundings is a process it starts, a question it puts
  to the consent collaborator (\<open>Ask.elevate\<close>), or an \<open>update\<close> call on an observer. The
  trace lists these events in the order they happen. Commands are kept structured: the
  constructor and its arguments determine the PowerShell text the source formats.
\<close>

datatype pyval = VInt int | VStr string | VList "pyval list"

datatype command =
    Raw string
  | EnumDevices
  | PnpDevice string string
  | TestPath string
  | GetValue string string
  | SetItemProperty string string pyval string
  | NewItem string "(string \<times> pyval \<times> string) option"
  | RemoveItem string
  | RemoveItemProperty string "string option"

type_synonym observer = nat

datatype event =
    Spawn command bool bool
  | AskElevate
  | Update observer

text \<open>
  What one \<open>subprocess.run\<close> yields. Unelevated, \<open>stdout\<close>, \<open>stderr\<close> and \<open>returncode\<close>
  are the command's own. Elevated, they belong to the launching shell, and the command's
  output is in the three capture files; \<open>rc_file\<close> is \<open>int(...)\<close> of the return-code file,
  \<open>None\<close> when that raises \<open>ValueError\<close>.
\<close>

record response =
  returncode :: int
  stdout :: string
  stderr :: string
  out_file :: string
  err_file :: string
  rc_file :: "int option"

text \<open>
  The exchange file of \<open>get_reg\<close> after the command has run: empty, not JSON, or the table
  \<open>{"data": ..., "type": ...}\<close>.
\<close>

datatype jfile = JEmpty | JInvalid | JTable pyval regtype

text \<open>
  The world answers as a function of the history so far: \<open>exec\<close> is given the trace ending
  in the \<open>Spawn\<close> being run, \<open>consent\<close> the trace ending in the question, \<open>read_json\<close> the
  trace at the moment the file is opened, \<open>on_update\<close> the trace ending in the \<open>Update\<close>
  being delivered: \<open>None\<close> when the observer's \<open>update\<close> returns, the exception when
  it raises.
\<close>

record world =
  exec :: "event list \<Rightarrow> response"
  consent :: "event list \<Rightarrow> bool"
  read_json :: "event list \<Rightarrow> jfile"
  on_update :: "event list \<Rightarrow> error option"

definition nl :: string where
  "nl = [CHR 0x0A]"


section \<open>Command runner (\<open>run.py\<close>)\<close>

text \<open>
  \<open>Spawn cmd elevate propogate\<close> records the one \<open>subprocess.run\<close> of a call. The retry
  passes only \<open>elevate=True\<close>, so \<open>auto_elevate\<close>, \<open>propogate\<close> and \<open>check\<close> take their
  defaults there.
\<close>

function run_ps ::
  "world \<Rightarrow> command \<Rightarrow> bool \<Rightarrow> bool \<Rightarrow> bool \<Rightarrow> bool \<Rightarrow> event list
     \<Rightarrow> (error + int \<times> string \<times> string) \<times> event list" where
  "run_ps w cmd elevate auto_elevate propogate check tr =
     (let tr1 = tr @ [Spawn cmd elevate propogate]; r = exec w tr1 in
      case
        (if elevate then
           (let resout = strip (stdout r); reserr = strip (stderr r) in
            if resout \<noteq> [] \<or> reserr \<noteq> [] then
              (case cmd_check_error (resout @ nl @ reserr) (Some (returncode r)) None of
                 Inl e \<Rightarrow> Inl e
               | Inr _ \<Rightarrow> Inl RuntimeError)
            else
              (case rc_file r of
                 None \<Rightarrow> Inl RuntimeError
               | Some rc \<Rightarrow> Inr (rc, out_file r, err_file r)))
         else Inr (returncode r, stdout r, stderr r))
      of
        Inl e \<Rightarrow> (Inl e, tr1)
      | Inr (rc, out, err) \<Rightarrow>
          (case cmd_check_error (out @ nl @ err) (Some rc) (Some [AccessDeniedError]) of
             Inr _ \<Rightarrow> (Inr (rc, out, err), tr1)
           | Inl e \<Rightarrow>
               if e = AccessDeniedError then
                 (if auto_elevate \<and> \<not> elevate then
                    (let tr2 = tr1 @ [AskElevate] in
                     if consent w tr2 then run_ps w cmd True True True False tr2
                     else (Inl UserAbortedError, tr2))
                  else if check then (Inl e, tr1)
                  else (Inr (rc, out, err), tr1))
               else if is_CommandError e then
                 (if check then (Inl e, tr1) else (Inr (rc, out, err), tr1))
               else (Inl e, tr1)))"
  by pat_completeness auto
termination
  by (relation "measure (\<lambda>(w, cmd, elevate, rest). if elevate then 0 else 1)") auto

declare run_ps.simps [simp del]


section \<open>Registry accessor (\<open>reg.py\<close>)\<close>

text \<open>\<open>Reg.handle_error\<close>: the decorator on \<open>test_reg\<close>, \<open>get_reg\<close>, \<open>set_reg\<close>, \<open>del_reg\<close>.\<close>

definition reg_wrap :: "error \<Rightarrow> error" where
  "reg_wrap e =
     (if e = UserAbortedError then RegistryOperationAbortedError
      else if e = AccessDeniedError then RegistryPermissionError
      else e)"

definition reg_handle_error :: "(error + 'a) \<times> event list \<Rightarrow> (error + 'a) \<times> event list" where
  "reg_handle_error res = (case res of (Inl e, tr) \<Rightarrow> (Inl (reg_wrap e), tr) | (Inr v, tr) \<Rightarrow> (Inr v, tr))"

text \<open>
  \<open>normalise\<close> called with one argument, as all callers here do: the bare integer comes
  back.
\<close>

definition normalise1 :: "regtype \<Rightarrow> error + int" where
  "normalise1 t =
     (case normalise [t] of
        Inl e \<Rightarrow> Inl e
      | Inr (Single i) \<Rightarrow> Inr i
      | Inr (Multiple _) \<Rightarrow> Inl TypeError)"

definition get_name1 :: "regtype \<Rightarrow> error + string" where
  "get_name1 t =
     (case get_name [t] False of
        Inl e \<Rightarrow> Inl e
      | Inr (Single n) \<Rightarrow> Inr n
      | Inr (Multiple _) \<Rightarrow> Inl TypeError)"

function get_reg ::
  "world \<Rightarrow> string \<Rightarrow> string \<Rightarrow> bool \<Rightarrow> bool \<Rightarrow> event list
     \<Rightarrow> (error + pyval \<times> int) \<times> event list" where
  "get_reg w path name elevate auto_elevate tr =
     reg_handle_error
       (case run_ps w (GetValue path name) elevate auto_elevate True False tr of
          (Inl e, tr1) \<Rightarrow> (Inl e, tr1)
        | (Inr (rc, out, err), tr1) \<Rightarrow>
            (let parse =
               (case read_json w tr1 of
                  JEmpty \<Rightarrow> (Inl AssertionError, tr1)
                | JInvalid \<Rightarrow> (Inl RuntimeError, tr1)
                | JTable d t \<Rightarrow>
                    (case normalise1 t of
                       Inl e \<Rightarrow> (Inl e, tr1)
                     | Inr i \<Rightarrow> (Inr (d, i), tr1)))
             in
             if strip out \<noteq> [] \<or> strip err \<noteq> [] then
               (case reg_check_error (out @ nl @ err) (Some rc) None of
                  Inr _ \<Rightarrow> (Inl RuntimeError, tr1)
                | Inl e \<Rightarrow>
                    if e = RegistryPermissionError then
                      (if auto_elevate \<and> \<not> elevate then
                         (let tr2 = tr1 @ [AskElevate] in
                          if consent w tr2 then get_reg w path name True True tr2
                          else (Inl e, tr2))
                       else (Inl e, tr1))
                    else (Inl e, tr1))
             else parse))"
  by pat_completeness auto
termination
  by (relation "measure (\<lambda>(w, path, name, elevate, rest). if elevate then 0 else 1)") auto

declare get_reg.simps [simp del]

definition test_reg ::
  "world \<Rightarrow> string \<Rightarrow> string option \<Rightarrow> bool \<Rightarrow> bool \<Rightarrow> event list
     \<Rightarrow> (error + bool) \<times> event list" where
  "test_reg w path name elevate auto_elevate tr =
     reg_handle_error
       (case name of
          None \<Rightarrow>
            (case run_ps w (TestPath path) elevate auto_elevate True False tr of
               (Inl e, tr1) \<Rightarrow> (Inl e, tr1)
             | (Inr (rc, out, err), tr1) \<Rightarrow>
                 if lower (strip out) = ''true'' then (Inr True, tr1)
                 else if lower (strip out) = ''false'' then (Inr False, tr1)
                 else (Inl RuntimeError, tr1))
        | Some n \<Rightarrow>
            (case get_reg w path n elevate auto_elevate tr of
               (Inl e, tr1) \<Rightarrow>
                 if e = RegistryItemNotFoundError then (Inr False, tr1) else (Inl e, tr1)
             | (Inr _, tr1) \<Rightarrow> (Inr True, tr1)))"

text \<open>An early \<open>return\<close> or \<open>raise\<close> inside a function body, against falling through.\<close>

datatype ('r, 'k) flow = Return 'r | Continue 'k

text \<open>
  \<open>set_reg\<close>. \<open>new_property\<close> is \<open>Some (name, value, reg_type)\<close> when all three were given
  and \<open>None\<close> when none was. The retry is \<open>cls.set_reg(path, name, elevate=True)\<close>:
  \<open>value\<close> and \<open>reg_type\<close> are not passed on and are \<open>None\<close> in the retried call.
\<close>

function set_reg ::
  "world \<Rightarrow> string \<Rightarrow> string option \<Rightarrow> pyval option \<Rightarrow> regtype option \<Rightarrow> bool \<Rightarrow> bool \<Rightarrow> bool
     \<Rightarrow> event list \<Rightarrow> (error + unit) \<times> event list" where
  "set_reg w path name val reg_type skip elevate auto_elevate tr =
     reg_handle_error
       (case
          (case (name, val, reg_type) of
             (Some n, Some v, Some t) \<Rightarrow> Inr (Some (n, v, t))
           | (None, None, None) \<Rightarrow> Inr None
           | _ \<Rightarrow> Inl ValueError)
        of
          Inl e \<Rightarrow> (Inl e, tr)
        | Inr new_property \<Rightarrow>
       (case
          (case new_property of
             None \<Rightarrow> Continue tr
           | Some (n, v, t) \<Rightarrow>
               if skip then
                 (case get_reg w path n elevate auto_elevate tr of
                    (Inl e, tr1) \<Rightarrow>
                      if e = RegistryItemNotFoundError then Continue tr1
                      else Return (Inl e, tr1)
                  | (Inr (get_val, get_type), tr1) \<Rightarrow>
                      (case normalise1 (TInt get_type) of
                         Inl e \<Rightarrow> Return (Inl e, tr1)
                       | Inr gt \<Rightarrow>
                           (case normalise1 t of
                              Inl e \<Rightarrow> Return (Inl e, tr1)
                            | Inr rt \<Rightarrow>
                                if (get_val, gt) = (v, rt) then Return (Inr (), tr1)
                                else Continue tr1)))
               else Continue tr)
        of
          Return res \<Rightarrow> res
        | Continue tr0 \<Rightarrow>
       (case test_reg w path None elevate auto_elevate tr0 of
          (Inl e, tr1) \<Rightarrow> (Inl e, tr1)
        | (Inr exists, tr1) \<Rightarrow>
       (case
          (if exists then
             (case new_property of
                None \<Rightarrow> Return (Inr (), tr1)
              | Some (n, v, t) \<Rightarrow>
                  (case get_name1 t of
                     Inl e \<Rightarrow> Return (Inl e, tr1)
                   | Inr tn \<Rightarrow>
                       (case run_ps w (SetItemProperty path n v tn) elevate auto_elevate
                               True False tr1 of
                          (Inl e, tr2) \<Rightarrow> Return (Inl e, tr2)
                        | (Inr (rc, out, err), tr2) \<Rightarrow> Continue (out, err, tr2))))
           else
             (case test_reg w path None elevate auto_elevate tr1 of
                (Inl e, tr2) \<Rightarrow> Return (Inl e, tr2)
              | (Inr found, tr2) \<Rightarrow>
                  if \<not> found then Return (Inl RuntimeError, tr2)
                  else
                    (case
                       (case new_property of
                          None \<Rightarrow> Inr None
                        | Some (n, v, t) \<Rightarrow>
                            (case get_name1 t of
                               Inl e \<Rightarrow> Inl e
                             | Inr tn \<Rightarrow> Inr (Some (n, v, tn))))
                     of
                       Inl e \<Rightarrow> Return (Inl e, tr2)
                     | Inr prop \<Rightarrow>
                         (case run_ps w (NewItem path prop) elevate auto_elevate
                                 True False tr2 of
                            (Inl e, tr3) \<Rightarrow> Return (Inl e, tr3)
                          | (Inr (rc, out, err), tr3) \<Rightarrow> Continue (out, err, tr3)))))
        of
          Return res \<Rightarrow> res
        | Continue (out, err, tr4) \<Rightarrow>
            if strip out \<noteq> [] \<or> strip err \<noteq> [] then
              (case reg_check_error (out @ nl @ err) None None of
                 Inr _ \<Rightarrow> (Inl RuntimeError, tr4)
               | Inl e \<Rightarrow>
                   if e = RegistryPermissionError then
                     (if auto_elevate \<and> \<not> elevate then
                        (let tr5 = tr4 @ [AskElevate] in
                         if consent w tr5
                         then set_reg w path name None None True True True tr5
                         else (Inl e, tr5))
                      else (Inl e, tr4))
                   else (Inl e, tr4))
            else (Inr (), tr4)))))"
  by pat_completeness auto
termination
  by (relation "measure (\<lambda>(w, path, name, val, reg_type, skip, elevate, rest).
                           if elevate then 0 else 1)") auto

declare set_reg.simps [simp del]

function del_reg ::
  "world \<Rightarrow> string \<Rightarrow> string option \<Rightarrow> bool \<Rightarrow> bool \<Rightarrow> event list
     \<Rightarrow> (error + unit) \<times> event list" where
  "del_reg w path name elevate auto_elevate tr =
     reg_handle_error
       (case test_reg w path name elevate auto_elevate tr of
          (Inl e, tr1) \<Rightarrow> (Inl e, tr1)
        | (Inr found, tr1) \<Rightarrow>
            if \<not> found then (Inr (), tr1)
            else
              (case run_ps w
                      (if name = None \<and> path \<noteq> [] then RemoveItem path
                       else RemoveItemProperty path name)
                      elevate auto_elevate True False tr1 of
                 (Inl e, tr2) \<Rightarrow> (Inl e, tr2)
               | (Inr (rc, out, err), tr2) \<Rightarrow>
                   if strip out \<noteq> [] \<or> strip err \<noteq> [] then
                     (case reg_check_error (out @ nl @ err) None None of
                        Inr _ \<Rightarrow> (Inl RuntimeError, tr2)
                      | Inl e \<Rightarrow>
                          if e = RegistryPermissionError then
                            (if auto_elevate \<and> \<not> elevate then
                               (let tr3 = tr2 @ [AskElevate] in
                                if consent w tr3 then del_reg w path name True True tr3
                                else (Inl e, tr3))
                             else (Inl e, tr2))
                          else (Inl e, tr2))
                   else (Inr (), tr2)))"
  by pat_completeness auto
termination
  by (relation "measure (\<lambda>(w, path, name, elevate, rest). if elevate then 0 else 1)") auto

declare del_reg.simps [simp del]


section \<open>Device model (\<open>model.py\<close>)\<close>

text \<open>
  The source's \<open>_check\<close>, \<open>_check_key\<close> and \<open>_toggle\<close> are \<open>u_check\<close>, \<open>u_check_key\<close> and
  \<open>u_toggle\<close> here, since a name cannot begin with an underscore.
\<close>

datatype device_class = Device | Touchscreen | Touchpad

datatype mode = DEVICE | SYSTEM | USER

datatype state = DISABLE | ENABLE | NONE

definition state_str :: "state \<Rightarrow> string" where
  "state_str s = (case s of DISABLE \<Rightarrow> ''disable'' | ENABLE \<Rightarrow> ''enable'' | NONE \<Rightarrow> ''none'')"

text \<open>
  Registry keys are \<open>(key_path, value_name, reg_type)\<close>; the touchpad's \<open>SYSTEM_KEY\<close> is the
  empty tuple, here \<open>None\<close>. Path components are joined with a backslash.
\<close>

definition reg_path :: "string list \<Rightarrow> string" where
  "reg_path parts = (case parts of [] \<Rightarrow> [] | p # ps \<Rightarrow> p @ concat (map (\<lambda>q. CHR 0x5C # q) ps))"

definition SYSTEM_KEY :: "device_class \<Rightarrow> (string \<times> string \<times> int) option" where
  "SYSTEM_KEY c =
     (case c of
        Device \<Rightarrow> Some ([], [], 0)
      | Touchscreen \<Rightarrow>
          Some (reg_path [''HKLM:'', ''SOFTWARE'', ''Microsoft'', ''Wisp'', ''Touch''],
                ''TouchGate'', 4)
      | Touchpad \<Rightarrow> None)"

definition USER_KEY :: "device_class \<Rightarrow> (string \<times> string \<times> int) option" where
  "USER_KEY c =
     (case c of
        Device \<Rightarrow> Some ([], [], 0)
      | Touchscreen \<Rightarrow>
          Some (reg_path [''HKCU:'', ''SOFTWARE'', ''Microsoft'', ''Wisp'', ''Touch''],
                ''TouchGate'', 4)
      | Touchpad \<Rightarrow>
          Some (reg_path [''HKCU:'', ''Software'', ''Microsoft'', ''Windows'', ''CurrentVersion'',
                          ''PrecisionTouchPad'', ''Status''],
                ''Enabled'', 4))"

definition DEVICE_NAMES :: "device_class \<Rightarrow> string list" where
  "DEVICE_NAMES c =
     (case c of
        Device \<Rightarrow> []
      | Touchscreen \<Rightarrow> [''touch screen'', ''touchscreen'']
      | Touchpad \<Rightarrow> [''touch pad'', ''touchpad''])"

text \<open>An instance: its class and the observers attached to it.\<close>

record device =
  cls :: device_class
  observers :: "observer list"

text \<open>\<open>Device.handle_error\<close>: the decorator on \<open>get_device\<close>, \<open>_check_key\<close> and \<open>_toggle\<close>.\<close>

definition dev_wrap :: "error \<Rightarrow> error" where
  "dev_wrap e =
     (if e = UserAbortedError \<or> e = RegistryOperationAbortedError then DeviceOperationAbortedError
      else if e = AccessDeniedError \<or> e = RegistryPermissionError then DevicePermissionError
      else e)"

definition dev_handle_error :: "(error + 'a) \<times> event list \<Rightarrow> (error + 'a) \<times> event list" where
  "dev_handle_error res = (case res of (Inl e, tr) \<Rightarrow> (Inl (dev_wrap e), tr) | (Inr v, tr) \<Rightarrow> (Inr v, tr))"

subsection \<open>Reading the enumeration\<close>

text \<open>\<open>out.split('

')\<close>: cut at each blank line, scanning from the left.\<close>

fun split_blocks_from :: "string \<Rightarrow> string \<Rightarrow> string list" where
  "split_blocks_from cur [] = [cur]"
| "split_blocks_from cur [a] = [cur @ [a]]"
| "split_blocks_from cur (a # b # cs) =
     (if a = CHR 0x0A \<and> b = CHR 0x0A then cur # split_blocks_from [] cs
      else split_blocks_from (cur @ [a]) (b # cs))"

definition split_blocks :: "string \<Rightarrow> string list" where
  "split_blocks s = split_blocks_from [] s"

text \<open>
  \<open>str.splitlines()\<close>: a line ends at LF, CR, CR LF, VT, FF, FS, GS or RS; no empty last
  line.
\<close>

definition line_breaks :: string where
  "line_breaks = [CHR 0x0A, CHR 0x0D, CHR 0x0B, CHR 0x0C, CHR 0x1C, CHR 0x1D, CHR 0x1E]"

fun splitlines_from :: "string \<Rightarrow> string \<Rightarrow> string list" where
  "splitlines_from cur [] = (if cur = [] then [] else [cur])"
| "splitlines_from cur [a] =
     (if a \<in> set line_breaks then [cur] else [cur @ [a]])"
| "splitlines_from cur (a # b # cs) =
     (if a = CHR 0x0D \<and> b = CHR 0x0A then cur # splitlines_from [] cs
      else if a \<in> set line_breaks then cur # splitlines_from [] (b # cs)
      else splitlines_from (cur @ [a]) (b # cs))"

definition splitlines :: "string \<Rightarrow> string list" where
  "splitlines s = splitlines_from [] s"

type_synonym fields = "(string \<times> string) list"

text \<open>
  One block as a dictionary: every line with a colon is cut at its first colon, both
  sides stripped; a repeated key keeps its place and takes the later value.
\<close>

definition add_field :: "fields \<Rightarrow> string \<Rightarrow> fields" where
  "add_field d l =
     (if CHR '':'' \<in> set l then
        AList.update (strip (takeWhile (\<lambda>c. c \<noteq> CHR '':'') l))
                     (strip (tl (dropWhile (\<lambda>c. c \<noteq> CHR '':'') l))) d
      else d)"

definition parse_block :: "string \<Rightarrow> fields" where
  "parse_block b = foldl add_field [] (splitlines b)"

definition block_matches :: "string list \<Rightarrow> string \<Rightarrow> bool" where
  "block_matches names b =
     (list_ex (\<lambda>n. contains (lower n) (lower b)) names \<and> CHR '':'' \<in> set b)"

text \<open>
  \<open>get_device\<close>. \<open>names\<close> is \<open>None\<close> or the list of names (a single \<open>str\<close> is the list
  holding it). With \<open>get_all\<close> the result is the list of blocks, otherwise the one block.
\<close>

function get_device ::
  "world \<Rightarrow> device \<Rightarrow> string list option \<Rightarrow> bool \<Rightarrow> bool \<Rightarrow> bool \<Rightarrow> event list
     \<Rightarrow> (error + fields pyres) \<times> event list" where
  "get_device w self names get_all elevate auto_elevate tr =
     dev_handle_error
       (let names1 = (case names of None \<Rightarrow> DEVICE_NAMES (cls self) | Some ns \<Rightarrow> ns) in
        case run_ps w EnumDevices elevate False True False tr of
          (Inl e, tr1) \<Rightarrow> (Inl e, tr1)
        | (Inr (rc, out, err), tr1) \<Rightarrow>
            (case pnp_check_error (strip (lower (out @ nl @ err))) None None of
               Inl e \<Rightarrow>
                 if e = DevicePermissionError then
                   (if auto_elevate \<and> \<not> elevate then
                      (let tr2 = tr1 @ [AskElevate] in
                       if consent w tr2
                       then get_device w self (Some names1) get_all True True tr2
                       else (Inl DeviceOperationAbortedError, tr2))
                    else (Inl e, tr1))
                 else (Inl e, tr1)
             | Inr _ \<Rightarrow>
                 (let blocks = map parse_block (filter (block_matches names1) (split_blocks out))
                  in
                  if get_all then (Inr (Multiple blocks), tr1)
                  else
                    (case blocks of
                       [b] \<Rightarrow> (Inr (Single b), tr1)
                     | _ \<Rightarrow> (Inl DeviceNotFoundError, tr1)))))"
  by pat_completeness auto
termination
  by (relation "measure (\<lambda>(w, self, names, get_all, elevate, rest). if elevate then 0 else 1)")
     auto

declare get_device.simps [simp del]

text \<open>\<open>device[key]\<close> and \<open>device.get(key)\<close> on what \<open>get_device()\<close> returned.\<close>

definition subscript :: "fields pyres \<Rightarrow> string \<Rightarrow> error + string" where
  "subscript r k =
     (case r of
        Multiple _ \<Rightarrow> Inl TypeError
      | Single d \<Rightarrow> (case map_of d k of None \<Rightarrow> Inl KeyError | Some v \<Rightarrow> Inr v))"

definition dict_get :: "fields pyres \<Rightarrow> string \<Rightarrow> error + string option" where
  "dict_get r k = (case r of Multiple _ \<Rightarrow> Inl AttributeError | Single d \<Rightarrow> Inr (map_of d k))"

definition get_field ::
  "world \<Rightarrow> device \<Rightarrow> string \<Rightarrow> bool \<Rightarrow> string list option \<Rightarrow> event list
     \<Rightarrow> (error + string option) \<times> event list" where
  "get_field w self field strict names tr =
     (case get_device w self names False False True tr of
        (Inl e, tr1) \<Rightarrow> (Inl e, tr1)
      | (Inr d, tr1) \<Rightarrow>
          (case dict_get d (capitalize field) of
             Inl e \<Rightarrow> (Inl e, tr1)
           | Inr None \<Rightarrow> if strict then (Inl DevicePropertyNotFoundError, tr1) else (Inr None, tr1)
           | Inr (Some v) \<Rightarrow> (Inr (Some v), tr1)))"

definition device_enabled :: "world \<Rightarrow> device \<Rightarrow> event list \<Rightarrow> (error + bool) \<times> event list" where
  "device_enabled w self tr =
     (case get_field w self ''Status'' True None tr of
        (Inl e, tr1) \<Rightarrow> (Inl e, tr1)
      | (Inr None, tr1) \<Rightarrow> (Inl AttributeError, tr1)
      | (Inr (Some status), tr1) \<Rightarrow> (Inr (lower status \<noteq> ''disabled''), tr1))"

subsection \<open>Registry levels and the effective state\<close>

text \<open>\<open>_check_key\<close>: \<open>Some True\<close>, \<open>Some False\<close>, or \<open>None\<close> when the level has no say.\<close>

definition u_check_key ::
  "world \<Rightarrow> (string \<times> string \<times> int) option \<Rightarrow> event list
     \<Rightarrow> (error + bool option) \<times> event list" where
  "u_check_key w key tr =
     dev_handle_error
       (case key of
          None \<Rightarrow> (Inl ValueError, tr)
        | Some (path, name, type0) \<Rightarrow>
            (case get_reg w path name False True tr of
               (Inl e, tr1) \<Rightarrow>
                 if e = RegistryItemNotFoundError then (Inr None, tr1) else (Inl e, tr1)
             | (Inr (reg_val, reg_type), tr1) \<Rightarrow>
                 (case normalise1 (TInt reg_type) of
                    Inl e \<Rightarrow> (Inl e, tr1)
                  | Inr a \<Rightarrow>
                      (case normalise1 (TInt type0) of
                         Inl e \<Rightarrow> (Inl e, tr1)
                       | Inr b \<Rightarrow>
                           if a \<noteq> b then (Inr None, tr1)
                           else if reg_val = VInt 0 then (Inr (Some False), tr1)
                           else if reg_val = VInt 1 then (Inr (Some True), tr1)
                           else (Inr None, tr1)))))"

text \<open>The touchpad overrides \<open>system_enabled\<close>: it has no system key.\<close>

definition system_enabled ::
  "world \<Rightarrow> device \<Rightarrow> event list \<Rightarrow> (error + bool option) \<times> event list" where
  "system_enabled w self tr =
     (if cls self = Touchpad then (Inl NotImplementedError, tr)
      else u_check_key w (SYSTEM_KEY (cls self)) tr)"

definition user_enabled ::
  "world \<Rightarrow> device \<Rightarrow> event list \<Rightarrow> (error + bool option) \<times> event list" where
  "user_enabled w self tr = u_check_key w (USER_KEY (cls self)) tr"

text \<open>
  \<open>user_active\<close>. The \<open>try\<close> block reads \<open>system_enabled\<close> and then \<open>user_enabled\<close>; a
  \<open>NotImplementedError\<close> raised in it is handled by reading \<open>user_enabled\<close> alone.
\<close>

definition user_active :: "world \<Rightarrow> device \<Rightarrow> event list \<Rightarrow> (error + bool) \<times> event list" where
  "user_active w self tr =
     (case device_enabled w self tr of
        (Inl e, tr1) \<Rightarrow> (Inl e, tr1)
      | (Inr enabled, tr1) \<Rightarrow>
          if \<not> enabled then (Inr False, tr1)
          else
            (case
               (case system_enabled w self tr1 of
                  (Inl e, tr2) \<Rightarrow> (Inl e, tr2)
                | (Inr s, tr2) \<Rightarrow>
                    if s = Some True \<or> s = None then
                      (case user_enabled w self tr2 of
                         (Inl e, tr3) \<Rightarrow> (Inl e, tr3)
                       | (Inr u, tr3) \<Rightarrow>
                           if u = Some False then (Inr False, tr3) else (Inr True, tr3))
                    else
                      (case user_enabled w self tr2 of
                         (Inl e, tr3) \<Rightarrow> (Inl e, tr3)
                       | (Inr u, tr3) \<Rightarrow>
                           if u = Some False \<or> u = None then (Inr False, tr3)
                           else (Inr True, tr3)))
             of
               (Inr active, tr4) \<Rightarrow> (Inr active, tr4)
             | (Inl e, tr4) \<Rightarrow>
                 if e = NotImplementedError then
                   (case user_enabled w self tr4 of
                      (Inl e1, tr5) \<Rightarrow> (Inl e1, tr5)
                    | (Inr u, tr5) \<Rightarrow>
                        if u = Some False then (Inr False, tr5) else (Inr True, tr5))
                 else (Inl e, tr4)))"

subsection \<open>Toggling\<close>

text \<open>
  \<open>_check\<close>, with the touchpad's override. The membership assertions hold by typing; what
  is left is that the device level has no \<open>none\<close> state.
\<close>

definition base_check :: "state option \<Rightarrow> mode option \<Rightarrow> error + unit" where
  "base_check st md =
     (if md = Some DEVICE \<and> st \<noteq> None \<and> st = Some NONE then Inl AssertionError else Inr ())"

definition u_check :: "device_class \<Rightarrow> state option \<Rightarrow> mode option \<Rightarrow> error + unit" where
  "u_check c st md =
     (case base_check st md of
        Inl e \<Rightarrow> Inl e
      | Inr _ \<Rightarrow> if c = Touchpad \<and> md = Some SYSTEM then Inl NotImplementedError else Inr ())"

function u_toggle ::
  "world \<Rightarrow> device \<Rightarrow> state \<Rightarrow> mode \<Rightarrow> bool \<Rightarrow> bool \<Rightarrow> event list
     \<Rightarrow> (error + unit) \<times> event list" where
  "u_toggle w self st md elevate auto_elevate tr =
     dev_handle_error
       (case u_check (cls self) (Some st) (Some md) of
          Inl e \<Rightarrow>
            if e = AssertionError \<or> e = NotImplementedError
            then (Inl DeviceInvalidOperationError, tr) else (Inl e, tr)
        | Inr _ \<Rightarrow>
            if md = DEVICE then
              (case get_device w self None False False True tr of
                 (Inl e, tr1) \<Rightarrow> (Inl e, tr1)
               | (Inr d, tr1) \<Rightarrow>
                   (case subscript d ''Instance ID'' of
                      Inl e \<Rightarrow> (Inl e, tr1)
                    | Inr instance_id \<Rightarrow>
                        (case run_ps w (PnpDevice (state_str st) instance_id) elevate False
                                True False tr1 of
                           (Inl e, tr2) \<Rightarrow> (Inl e, tr2)
                         | (Inr (rc, out0, err0), tr2) \<Rightarrow>
                             (let out = strip (lower out0);
                                  err = strip (lower err0);
                                  output = out @ nl @ err;
                                  finish = (if contains ''success'' output then (Inr (), tr2)
                                            else (Inl PnpError, tr2))
                              in
                              if out \<noteq> [] \<or> err \<noteq> [] then
                                (case pnp_check_error output None None of
                                   Inr _ \<Rightarrow> finish
                                 | Inl e \<Rightarrow>
                                     if e = DevicePermissionError then
                                       (if auto_elevate \<and> \<not> elevate then
                                          (let tr3 = tr2 @ [AskElevate] in
                                           if consent w tr3
                                           then u_toggle w self st md True True tr3
                                           else (Inl DeviceOperationAbortedError, tr3))
                                        else (Inl e, tr2))
                                     else if e = DevicePropertyExistsError then (Inr (), tr2)
                                     else (Inl e, tr2))
                              else finish))))
            else
              (case (if md = SYSTEM then SYSTEM_KEY (cls self) else USER_KEY (cls self)) of
                 None \<Rightarrow> (Inl ValueError, tr)
               | Some (path, name, reg_type) \<Rightarrow>
                   (case st of
                      DISABLE \<Rightarrow>
                        set_reg w path (Some name) (Some (VInt 0)) (Some (TInt reg_type))
                          True False True tr
                    | ENABLE \<Rightarrow>
                        set_reg w path (Some name) (Some (VInt 1)) (Some (TInt reg_type))
                          True False True tr
                    | NONE \<Rightarrow>
                        (case test_reg w path (Some name) False True tr of
                           (Inl e, tr1) \<Rightarrow> (Inl e, tr1)
                         | (Inr found, tr1) \<Rightarrow>
                             if found then del_reg w path (Some name) False True tr1
                             else (Inr (), tr1)))))"
  by pat_completeness auto
termination
  by (relation "measure (\<lambda>(w, self, st, md, elevate, rest). if elevate then 0 else 1)") auto

declare u_toggle.simps [simp del]

text \<open>
  \<open>Observable.notify\<close> calls \<open>update\<close> on the attached observers one after the other and
  re-raises what an \<open>update\<close> raises, leaving the observers after it uncalled.
  \<open>Observable.observed\<close> runs the wrapped method, re-raises what it raises, and otherwise
  notifies and returns the method's result. Of an \<open>update\<close> the trace records the call, and
  the world says whether it raised; what the observer does inside is its own.
\<close>

fun notify_each :: "world \<Rightarrow> observer list \<Rightarrow> event list \<Rightarrow> (error + unit) \<times> event list" where
  "notify_each w [] tr = (Inr (), tr)"
| "notify_each w (ob # obs) tr =
     (let tr1 = tr @ [Update ob] in
      case on_update w tr1 of
        Some e \<Rightarrow> (Inl e, tr1)
      | None \<Rightarrow> notify_each w obs tr1)"

definition notify :: "world \<Rightarrow> device \<Rightarrow> event list \<Rightarrow> (error + unit) \<times> event list" where
  "notify w self tr = notify_each w (observers self) tr"

definition toggle ::
  "world \<Rightarrow> device \<Rightarrow> state \<Rightarrow> mode \<Rightarrow> bool \<Rightarrow> bool \<Rightarrow> event list
     \<Rightarrow> (error + unit) \<times> event list" where
  "toggle w self st md elevate auto_elevate tr =
     (case u_toggle w self st md elevate auto_elevate tr of
        (Inl e, tr1) \<Rightarrow> (Inl e, tr1)
      | (Inr r, tr1) \<Rightarrow>
          (case notify w self tr1 of
             (Inl e, tr2) \<Rightarrow> (Inl e, tr2)
           | (Inr _, tr2) \<Rightarrow> (Inr r, tr2)))"


section \<open>Sample worlds\<close>

text \<open>
  Concrete surroundings on which the theorems below are exercised: a machine whose
  enumeration lists one touch screen and whose commands print nothing. Unless said
  otherwise the observers' \<open>update\<close> returns.
\<close>

definition quiet :: response where
  "quiet = \<lparr>returncode = 0, stdout = [], stderr = [], out_file = [], err_file = [],
            rc_file = Some 0\<rparr>"

definition says :: "string \<Rightarrow> response" where
  "says text = quiet\<lparr>stdout := text\<rparr>"

definition demo_enum :: string where
  "demo_enum = ''Instance ID: touchscreen'' @ nl @ ''Status: Started''"

definition demo_world :: world where
  "demo_world =
     \<lparr>exec = (\<lambda>tr. case last tr of Spawn EnumDevices _ _ \<Rightarrow> says demo_enum | _ \<Rightarrow> quiet),
      consent = (\<lambda>tr. True),
      read_json = (\<lambda>tr. JTable (VInt 0) (TStr ''DWord'')),
      on_update = (\<lambda>tr. None)\<rparr>"

definition touchscreen0 :: device where
  "touchscreen0 = \<lparr>cls = Touchscreen, observers = [1, 2]\<rparr>"

definition hklm_touch :: string where
  "hklm_touch = reg_path [''HKLM:'', ''SOFTWARE'', ''Microsoft'', ''Wisp'', ''Touch'']"

definition hkcu_touch :: string where
  "hkcu_touch = reg_path [''HKCU:'', ''SOFTWARE'', ''Microsoft'', ''Wisp'', ''Touch'']"


text \<open>\<open>'\n\n'.join(blocks)\<close>, the inverse of cutting at blank lines.\<close>

fun join_blocks :: "string list \<Rightarrow> string" where
  "join_blocks [] = []"
| "join_blocks [b] = b"
| "join_blocks (b # c # bs) = b @ nl @ nl @ join_blocks (c # bs)"

text \<open>Events other than notifications, and traces that grow by such events only.\<close>

fun is_update :: "event \<Rightarrow> bool" where
  "is_update (Update _) = True"
| "is_update _ = False"

definition silent :: "event list \<Rightarrow> event list \<Rightarrow> bool" where
  "silent tr tr' = (prefix tr tr' \<and> filter is_update tr' = filter is_update tr)"

definition denied :: string where
  "denied = ''Access is denied.''"

text \<open>A machine that refuses every command, and a user who declines to elevate.\<close>

definition denied_world :: world where
  "denied_world =
     \<lparr>exec = (\<lambda>tr. says denied),
      consent = (\<lambda>tr. False),
      read_json = (\<lambda>tr. JEmpty),
      on_update = (\<lambda>tr. None)\<rparr>"

text \<open>A machine that refuses unelevated commands and runs elevated ones quietly.\<close>

definition locked_world :: "bool \<Rightarrow> world" where
  "locked_world answer =
     \<lparr>exec = (\<lambda>tr. case last tr of
                      Spawn _ el _ \<Rightarrow> if el then quiet else says denied
                    | _ \<Rightarrow> quiet),
      consent = (\<lambda>tr. answer),
      read_json = (\<lambda>tr. JEmpty),
      on_update = (\<lambda>tr. None)\<rparr>"

text \<open>A registry in which the key asked about does not exist.\<close>

definition fresh_world :: world where
  "fresh_world =
     \<lparr>exec = (\<lambda>tr. case last tr of
                      Spawn (GetValue _ _) _ _ \<Rightarrow> quiet\<lparr>stderr := ''Cannot find path''\<rparr>
                    | Spawn (TestPath _) _ _ \<Rightarrow> says ''False''
                    | _ \<Rightarrow> quiet),
      consent = (\<lambda>tr. True),
      read_json = (\<lambda>tr. JEmpty),
      on_update = (\<lambda>tr. None)\<rparr>"

text \<open>
  A registry whose key exists and holds 0, and which refuses to be written, elevated or
  not; the user grants every request to elevate.
\<close>

definition refused_world :: world where
  "refused_world =
     \<lparr>exec = (\<lambda>tr. case last tr of
                      Spawn (TestPath _) _ _ \<Rightarrow> says ''True''
                    | Spawn (SetItemProperty _ _ _ _) el _ \<Rightarrow>
                        if el then quiet\<lparr>err_file := denied\<rparr> else quiet\<lparr>stderr := denied\<rparr>
                    | _ \<Rightarrow> quiet),
      consent = (\<lambda>tr. True),
      read_json = (\<lambda>tr. JTable (VInt 0) (TStr ''DWord'')),
      on_update = (\<lambda>tr. None)\<rparr>"

definition sip :: command where
  "sip = SetItemProperty ''HKCU:K'' ''V'' (VInt 1) ''DWORD''"

definition probes :: "event list" where
  "probes = [Spawn (GetValue ''HKCU:K'' ''V'') False True, Spawn (TestPath ''HKCU:K'') False True]"


text \<open>
  A machine on which enabling the device needs elevation, and one on which the device
  is enabled already.
\<close>

definition guarded_world :: world where
  "guarded_world =
     \<lparr>exec = (\<lambda>tr. case last tr of
                      Spawn EnumDevices _ _ \<Rightarrow> says demo_enum
                    | Spawn (PnpDevice _ _) el _ \<Rightarrow>
                        if el then quiet\<lparr>out_file := ''Device enabled successfully.''\<rparr>
                        else says denied
                    | _ \<Rightarrow> quiet),
      consent = (\<lambda>tr. True),
      read_json = (\<lambda>tr. JEmpty),
      on_update = (\<lambda>tr. None)\<rparr>"

definition enabled_world :: world where
  "enabled_world =
     \<lparr>exec = (\<lambda>tr. case last tr of
                      Spawn EnumDevices _ _ \<Rightarrow> says demo_enum
                    | Spawn (PnpDevice _ _) _ _ \<Rightarrow> says ''Device is already enabled.''
                    | _ \<Rightarrow> quiet),
      consent = (\<lambda>tr. True),
      read_json = (\<lambda>tr. JEmpty),
      on_update = (\<lambda>tr. None)\<rparr>"

definition enable_cmd :: command where
  "enable_cmd = PnpDevice ''enable'' ''touchscreen''"

text \<open>
  The same machine with a second observer whose \<open>update\<close> fails, as a view's refresh
  does when it cannot find the device.
\<close>

definition touchy_world :: world where
  "touchy_world =
     enabled_world\<lparr>on_update :=
       (\<lambda>tr. if last tr = Update 2 then Some DeviceNotFoundError else None)\<rparr>"

text \<open>
  An enumeration of three blocks, one of them the touch screen, whose instance
  identifier happens to hold the digits 50.
\<close>

definition fifty_enum :: string where
  "fifty_enum =
     ''Microsoft PnP Utility'' @ nl @ nl
     @ ''Instance ID: P1050'' @ nl @ ''Description: touch screen'' @ nl @ nl
     @ ''Instance ID: M'' @ nl @ ''Description: mouse''"

definition fifty_world :: world where
  "fifty_world =
     \<lparr>exec = (\<lambda>tr. says fifty_enum),
      consent = (\<lambda>tr. True),
      read_json = (\<lambda>tr. JEmpty),
      on_update = (\<lambda>tr. None)\<rparr>"


section \<open>Registry type normalisation\<close>

lemma normalise_int:
  "normalise [TInt i] = Inr (Single (if i \<in> set SUPPORTED_REG_TYPES then i else 0))"
  by (simp add: normalise_def normalise_one_def unwrap_def)

lemma normalise_single:
  "normalise [t] = (case normalise_one t of Inl e \<Rightarrow> Inl e | Inr i \<Rightarrow> Inr (Single i))"
  by (simp add: normalise_def unwrap_def split: sum.splits)

lemma normalise_one_supported:
  "normalise_one t = Inr i \<Longrightarrow> i \<in> set SUPPORTED_REG_TYPES"
  by (auto simp add: normalise_one_def SUPPORTED_REG_TYPES_def split: sum.splits if_splits)

lemma name_of_supported:
  "i \<in> set SUPPORTED_REG_TYPES \<Longrightarrow>
     \<exists>n f. map_of REG_VALUE_KIND_NAMES i = Some n \<and> map_of REG_FRIENDLY_NAMES n = Some f"
  by (auto simp add: SUPPORTED_REG_TYPES_def REG_VALUE_KIND_NAMES_def REG_FRIENDLY_NAMES_def)

lemma get_name_single:
  "get_name [t] p = (case get_name_one p t of Inl e \<Rightarrow> Inl e | Inr n \<Rightarrow> Inr (Single n))"
  by (simp add: get_name_def unwrap_def split: sum.splits)

lemma get_name_fails_iff: "get_name [t] p = Inl e \<longleftrightarrow> normalise [t] = Inl e"
proof (cases "normalise_one t")
  case (Inl e')
  then show ?thesis
    by (simp add: get_name_single get_name_one_def normalise_single)
next
  case (Inr i)
  then obtain n f where
    "map_of REG_VALUE_KIND_NAMES i = Some n" "map_of REG_FRIENDLY_NAMES n = Some f"
    using normalise_one_supported name_of_supported by blast
  with Inr show ?thesis
    by (simp add: get_name_single get_name_one_def normalise_single)
qed

lemma get_name_unsupported:
  "i \<notin> set SUPPORTED_REG_TYPES \<Longrightarrow>
     get_name [TInt i] False = Inr (Single ''UNKNOWN'')
     \<and> get_name [TInt i] True = Inr (Single ''Unknown'')"
  by (simp add: get_name_single get_name_one_def normalise_int REG_VALUE_KIND_NAMES_def
        REG_FRIENDLY_NAMES_def)

lemma winapi_names:
  "(n, c) \<in> set WINAPI_REG_TYPES \<Longrightarrow>
     normalise [TStr n] = Inr (Single (if c \<in> set SUPPORTED_REG_TYPES then c else 0))"
  apply (simp add: WINAPI_REG_TYPES_def)
  apply (elim disjE conjE)
  apply simp_all
  apply code_simp+
  done

lemma kind_names:
  "(n, c) \<in> set REG_VALUE_KINDS \<Longrightarrow>
     normalise [TStr n] = Inr (Single (if n = ''NONE'' then 0 else c))"
  apply (simp add: REG_VALUE_KINDS_def)
  apply (elim disjE conjE)
  apply simp_all
  apply code_simp+
  done

text \<open>
  C6, as the code has it. An integer code, a low-level name of \<open>WINAPI_REG_TYPES\<close> and a
  kind name of \<open>REG_VALUE_KINDS\<close> all normalise without an error: an integer code and a
  low-level name to their code when it is supported and to the unknown code 0 when it is
  not, a kind name other than \<open>NONE\<close> to its code. (Which code the name \<open>NONE\<close>, which is
  also \<open>REG_NONE\<close> without its prefix, normalises to is not stated.) Asking \<open>get_name\<close> for
  the name of an unsupported integer code does not fail either: the code is normalised to
  0 first, and 0 is named \<open>UNKNOWN\<close> (\<open>Unknown\<close> when \<open>pretty\<close>). \<open>get_name\<close> raises
  exactly where \<open>normalise\<close> does.
\<close>

theorem normalise_succeeds_get_name_unknown:
  "normalise [TInt i] = Inr (Single (if i \<in> set SUPPORTED_REG_TYPES then i else 0))
   \<and> ((n, c) \<in> set WINAPI_REG_TYPES \<longrightarrow>
        normalise [TStr n] = Inr (Single (if c \<in> set SUPPORTED_REG_TYPES then c else 0)))
   \<and> ((k, d) \<in> set REG_VALUE_KINDS \<longrightarrow>
        (\<exists>j. normalise [TStr k] = Inr (Single j))
        \<and> (k \<noteq> ''NONE'' \<longrightarrow> normalise [TStr k] = Inr (Single d)))
   \<and> (i \<notin> set SUPPORTED_REG_TYPES \<longrightarrow>
        get_name [TInt i] False = Inr (Single ''UNKNOWN'')
        \<and> get_name [TInt i] True = Inr (Single ''Unknown''))
   \<and> (get_name [t] p = Inl e \<longleftrightarrow> normalise [t] = Inl e)"
proof -
  have "(\<exists>j. normalise [TStr k] = Inr (Single j))
        \<and> (k \<noteq> ''NONE'' \<longrightarrow> normalise [TStr k] = Inr (Single d))"
    if "(k, d) \<in> set REG_VALUE_KINDS"
    using kind_names [OF that] by simp
  then show ?thesis
    using normalise_int winapi_names get_name_unsupported get_name_fails_iff
    by blast
qed

theorem normalise_succeeds_get_name_unknown_witness:
  "normalise [TInt 5] = Inr (Single 0)
   \<and> (''REG_LINK'', 6) \<in> set WINAPI_REG_TYPES \<and> normalise [TStr ''REG_LINK''] = Inr (Single 0)
   \<and> (''DWORD'', 4) \<in> set REG_VALUE_KINDS \<and> ''DWORD'' \<noteq> ''NONE''
   \<and> normalise [TStr ''DWORD''] = Inr (Single 4)
   \<and> 5 \<notin> set SUPPORTED_REG_TYPES
   \<and> get_name [TInt 5] False = Inr (Single ''UNKNOWN'')
   \<and> get_name [TInt 5] True = Inr (Single ''Unknown'')
   \<and> normalise [TStr ''word''] = Inl ValueError
   \<and> get_name [TStr ''word''] False = Inl ValueError"
proof -
  have a: "(''REG_LINK'', 6) \<in> set WINAPI_REG_TYPES"
    by (simp add: WINAPI_REG_TYPES_def)
  have b: "(''DWORD'', 4) \<in> set REG_VALUE_KINDS"
    by (simp add: REG_VALUE_KINDS_def)
  have c: "(5::int) \<notin> set SUPPORTED_REG_TYPES" "(6::int) \<notin> set SUPPORTED_REG_TYPES"
    by (simp_all add: SUPPORTED_REG_TYPES_def)
  have d: "normalise [TStr ''word''] = Inl ValueError"
    by code_simp
  from normalise_succeeds_get_name_unknown
         [of 5 "''REG_LINK''" 6 "''DWORD''" 4 "TStr ''word''" False ValueError] a b c d
  show ?thesis by simp
qed

text \<open>
  C6 as stated fails: \<open>get_name(5)\<close> returns a name although 5 is not a supported code.
\<close>

theorem get_name_unsupported_counterexample:
  "5 \<notin> set SUPPORTED_REG_TYPES \<and> get_name [TInt 5] False = Inr (Single ''UNKNOWN'')"
  by code_simp

text \<open>
  C7. Whatever \<open>normalise\<close> accepts, it maps to an integer that it maps to itself; and
  every integer code outside \<open>SUPPORTED_REG_TYPES\<close> goes to the unknown code 0.
\<close>

theorem normalise_idempotent:
  "(normalise [t] = Inr r \<longrightarrow> (\<exists>i. r = Single i \<and> normalise [TInt i] = Inr (Single i)))
   \<and> (j \<notin> set SUPPORTED_REG_TYPES \<longrightarrow> normalise [TInt j] = Inr (Single 0))"
proof (intro conjI impI)
  assume ok: "normalise [t] = Inr r"
  then obtain i where i: "normalise_one t = Inr i" and r: "r = Single i"
    by (auto simp add: normalise_single split: sum.splits)
  from i have "i \<in> set SUPPORTED_REG_TYPES" by (rule normalise_one_supported)
  then have "normalise [TInt i] = Inr (Single i)" by (simp add: normalise_int)
  with r show "\<exists>i. r = Single i \<and> normalise [TInt i] = Inr (Single i)" by blast
next
  assume "j \<notin> set SUPPORTED_REG_TYPES"
  then show "normalise [TInt j] = Inr (Single 0)" by (simp add: normalise_int)
qed

theorem normalise_idempotent_witness:
  "normalise [TStr ''DWord''] = Inr (Single 4) \<and> normalise [TInt 4] = Inr (Single 4)
   \<and> 5 \<notin> set SUPPORTED_REG_TYPES \<and> normalise [TInt 5] = Inr (Single 0)"
proof -
  have a: "normalise [TStr ''DWord''] = Inr (Single 4)" by code_simp
  have b: "(5::int) \<notin> set SUPPORTED_REG_TYPES" by (simp add: SUPPORTED_REG_TYPES_def)
  from normalise_idempotent [of "TStr ''DWord''" "Single 4" 5] a b show ?thesis by simp
qed


section \<open>The effective state\<close>

text \<open>
  C1. Let the three readings \<open>user_active\<close> makes be: the device is enabled or not (\<open>d\<close>);
  the system level says \<open>Some True\<close>, \<open>Some False\<close> or \<open>None\<close>, or there is no system level
  and the reading raises \<open>NotImplementedError\<close>; the user level says \<open>u\<close>. Then
  \<open>user_active\<close> is false when the device is disabled; otherwise, when the system level
  says \<open>Some False\<close>, it is true exactly when the user level says \<open>Some True\<close>; in every
  other case (system true, absent, or no system level) it is false exactly when the user
  level says \<open>Some False\<close>.
\<close>

theorem user_active_table:
  assumes "device_enabled w self tr = (Inr d, tr1)"
    and "system_enabled w self tr1 = (sres, tr2)"
    and "sres = Inr s \<or> sres = Inl NotImplementedError"
    and "user_enabled w self tr2 = (Inr u, tr3)"
  shows "fst (user_active w self tr) =
           Inr (d \<and> (case sres of Inr (Some False) \<Rightarrow> u = Some True | _ \<Rightarrow> u \<noteq> Some False))"
  using assms
  by (auto simp add: user_active_def split: option.splits)

theorem user_active_table_witness:
  "device_enabled demo_world touchscreen0 [] = (Inr True, [Spawn EnumDevices False True])
   \<and> system_enabled demo_world touchscreen0 [Spawn EnumDevices False True]
       = (Inr (Some False),
          [Spawn EnumDevices False True, Spawn (GetValue hklm_touch ''TouchGate'') False True])
   \<and> user_enabled demo_world touchscreen0
         [Spawn EnumDevices False True, Spawn (GetValue hklm_touch ''TouchGate'') False True]
       = (Inr (Some False),
          [Spawn EnumDevices False True, Spawn (GetValue hklm_touch ''TouchGate'') False True,
           Spawn (GetValue hkcu_touch ''TouchGate'') False True])
   \<and> fst (user_active demo_world touchscreen0 []) = Inr False"
proof -
  have a: "device_enabled demo_world touchscreen0 [] = (Inr True, [Spawn EnumDevices False True])"
    by code_simp
  have b: "system_enabled demo_world touchscreen0 [Spawn EnumDevices False True]
       = (Inr (Some False),
          [Spawn EnumDevices False True, Spawn (GetValue hklm_touch ''TouchGate'') False True])"
    by code_simp
  have c: "user_enabled demo_world touchscreen0
         [Spawn EnumDevices False True, Spawn (GetValue hklm_touch ''TouchGate'') False True]
       = (Inr (Some False),
          [Spawn EnumDevices False True, Spawn (GetValue hklm_touch ''TouchGate'') False True,
           Spawn (GetValue hkcu_touch ''TouchGate'') False True])"
    by code_simp
  from user_active_table [OF a b _ c, of "Some False"] a b c show ?thesis
    by simp
qed


section \<open>A level the device does not have\<close>

text \<open>
  C9. Toggling the system level of a touchpad, whatever the state asked for, fails with
  \<open>DeviceInvalidOperationError\<close> and leaves the trace as it was: no process is started
  and nobody is asked or notified.
\<close>

theorem toggle_no_system_key:
  "toggle w (self\<lparr>cls := Touchpad\<rparr>) st SYSTEM elevate auto_elevate tr
     = (Inl DeviceInvalidOperationError, tr)"
  by (simp add: toggle_def u_toggle.simps u_check_def base_check_def dev_handle_error_def
        dev_wrap_def)

theorem toggle_no_system_key_witness:
  "toggle demo_world (touchscreen0\<lparr>cls := Touchpad\<rparr>) ENABLE SYSTEM False True []
     = (Inl DeviceInvalidOperationError, [])"
  by (rule toggle_no_system_key)


section \<open>The device classifier and the code 50\<close>

lemma lower_chr_5: "lower_chr d = CHR ''5'' \<longleftrightarrow> d = CHR ''5''"
  by (simp add: lower_chr_def upper_letters_def lower_letters_def)

lemma lower_chr_0: "lower_chr d = CHR ''0'' \<longleftrightarrow> d = CHR ''0''"
  by (simp add: lower_chr_def upper_letters_def lower_letters_def)

lemma step_50: "step ic (lit ''50'') (p, s) \<noteq> [] \<longleftrightarrow> prefix ''50'' s"
proof (cases s)
  case Nil
  then show ?thesis by (simp add: lit_def)
next
  case (Cons a t)
  show ?thesis
  proof (cases t)
    case Nil
    with Cons show ?thesis by (auto simp add: lit_def)
  next
    case (Cons b u)
    with \<open>s = a # t\<close> show ?thesis
      using lower_chr_5 [of a] lower_chr_0 [of b]
      by (auto simp add: lit_def lower_chr_def upper_letters_def lower_letters_def)
  qed
qed

lemma search_50: "search ic (lit ''50'') p s \<longleftrightarrow> contains ''50'' s"
proof (induction s arbitrary: p)
  case Nil
  then show ?case by (simp add: lit_def)
next
  case (Cons a s)
  have "step ic (lit ''50'') (p, a # s) \<noteq> [] \<longleftrightarrow> prefix ''50'' (a # s)"
    by (rule step_50)
  with Cons show ?case by simp
qed

lemma re_search_50: "re_search ic (lit ''50'') s \<longleftrightarrow> contains ''50'' s"
  by (simp add: re_search_def search_50)

text \<open>
  C10, as the code has it. Whenever the digits 50 occur in the output or in \<open>str(rc)\<close>,
  the kind \<open>DevicePropertyExistsError\<close> is among those asked for, and no pattern of the
  three kinds listed before it is found, the classifier raises
  \<open>DevicePropertyExistsError\<close>. Return codes 150 and 502, or the text of an unrelated
  field, are enough.
\<close>

theorem code_50_classified:
  assumes fifty: "contains ''50'' output \<or> contains ''50'' (str_rc rc)"
    and asked: "errors = None \<or> (\<exists>es. errors = Some es \<and> DevicePropertyExistsError \<in> set es)"
    and earlier: "pnp_check_error output rc
                    (Some [DevicePermissionError, DeviceOperationAbortedError, DeviceNotFoundError])
                  = Inr ()"
  shows "pnp_check_error output rc errors = Inl DevicePropertyExistsError"
proof -
  let ?hit = "\<lambda>r. re_search True r output \<or> re_search False r (str_rc rc)"
  have hit: "?hit (lit ''50'')"
    using fifty by (simp add: re_search_50)
  from earlier have no: "\<not> list_ex ?hit (snd (PNP_ERROR_MAP ! 0))"
      "\<not> list_ex ?hit (snd (PNP_ERROR_MAP ! 1))" "\<not> list_ex ?hit (snd (PNP_ERROR_MAP ! 2))"
    by (simp_all add: pnp_check_error_def classify_def PNP_ERROR_MAP_def split: if_splits)
  from asked show ?thesis
  proof
    assume "errors = None"
    with hit no show ?thesis
      by (simp add: pnp_check_error_def classify_def PNP_ERROR_MAP_def)
  next
    assume "\<exists>es. errors = Some es \<and> DevicePropertyExistsError \<in> set es"
    then obtain es where "errors = Some es" "DevicePropertyExistsError \<in> set es" by blast
    with hit no show ?thesis
      by (simp add: pnp_check_error_def classify_def PNP_ERROR_MAP_def)
  qed
qed

theorem code_50_classified_witness:
  "contains ''50'' (str_rc (Some 150))
   \<and> pnp_check_error [] (Some 150)
         (Some [DevicePermissionError, DeviceOperationAbortedError, DeviceNotFoundError]) = Inr ()
   \<and> pnp_check_error [] (Some 150) None = Inl DevicePropertyExistsError
   \<and> contains ''50'' ''problem code: 50''
   \<and> pnp_check_error ''problem code: 50'' None (Some [DevicePropertyExistsError])
         = Inl DevicePropertyExistsError"
proof -
  have a: "contains ''50'' (str_rc (Some 150))" by code_simp
  have b: "pnp_check_error [] (Some 150)
         (Some [DevicePermissionError, DeviceOperationAbortedError, DeviceNotFoundError]) = Inr ()"
    by code_simp
  have c: "contains ''50'' ''problem code: 50''" by code_simp
  have d: "pnp_check_error ''problem code: 50'' None
         (Some [DevicePermissionError, DeviceOperationAbortedError, DeviceNotFoundError]) = Inr ()"
    by code_simp
  from code_50_classified [of "[]" "Some 150" None]
       code_50_classified [of "''problem code: 50''" None "Some [DevicePropertyExistsError]"]
       a b c d
  show ?thesis by simp
qed

text \<open>
  C10 as stated fails: with the return code 50 and a refusal in the output, the kind
  raised is \<open>DevicePermissionError\<close>, which comes first in the map.
\<close>

theorem code_50_counterexample:
  "contains ''50'' (str_rc (Some 50))
   \<and> pnp_check_error ''access denied'' (Some 50) None = Inl DevicePermissionError"
  by code_simp


section \<open>Finding the device in the enumeration\<close>

lemma join_blocks_Cons: "join_blocks ((a # b) # bs) = a # join_blocks (b # bs)"
  by (cases bs) simp_all

lemma split_blocks_from_join:
  "\<exists>b bs. split_blocks_from cur s = (cur @ b) # bs \<and> join_blocks (b # bs) = s"
proof (induction cur s rule: split_blocks_from.induct)
  case (1 cur)
  then show ?case by simp
next
  case (2 cur a)
  then show ?case by simp
next
  case (3 cur a b cs)
  show ?case
  proof (cases "a = CHR 0x0A \<and> b = CHR 0x0A")
    case True
    with 3 obtain b' bs' where "split_blocks_from [] cs = b' # bs'" "join_blocks (b' # bs') = cs"
      by auto
    with True show ?thesis by (simp add: nl_def)
  next
    case False
    with 3 obtain b' bs' where
      "split_blocks_from (cur @ [a]) (b # cs) = ((cur @ [a]) @ b') # bs'"
      "join_blocks (b' # bs') = b # cs"
      by blast
    with False have "split_blocks_from cur (a # b # cs) = (cur @ (a # b')) # bs'
        \<and> join_blocks ((a # b') # bs') = a # b # cs"
      by (auto simp add: join_blocks_Cons)
    then show ?thesis by blast
  qed
qed

lemma join_split_blocks: "join_blocks (split_blocks s) = s"
  using split_blocks_from_join [of "[]" s] by (auto simp add: split_blocks_def)

text \<open>
  What \<open>get_device\<close> does once the enumeration ran and the device classifier found no
  error in it: the standard output is cut at blank lines (joining the blocks with blank
  lines gives it back), the blocks that contain one of the wanted names, ignoring case,
  and a colon are kept, and the parsed fields of the block kept are returned when there
  is exactly one; with none or several the error is \<open>DeviceNotFoundError\<close>.
\<close>

lemma get_device_one_block:
  assumes run: "run_ps w EnumDevices elevate False True False tr = (Inr (rc, out, err), tr1)"
    and clean: "pnp_check_error (strip (lower (out @ nl @ err))) None None = Inr ()"
    and wanted: "wanted = (case names of None \<Rightarrow> DEVICE_NAMES (cls self) | Some ns \<Rightarrow> ns)"
    and kept: "kept = filter (\<lambda>b. (\<exists>n \<in> set wanted. contains (lower n) (lower b))
                                  \<and> CHR '':'' \<in> set b) (split_blocks out)"
  shows "join_blocks (split_blocks out) = out
     \<and> (length kept = 1 \<longrightarrow>
          get_device w self names False elevate auto_elevate tr
            = (Inr (Single (parse_block (hd kept))), tr1))
     \<and> (length kept \<noteq> 1 \<longrightarrow>
          get_device w self names False elevate auto_elevate tr = (Inl DeviceNotFoundError, tr1))"
proof -
  have k: "kept = filter (block_matches wanted) (split_blocks out)"
    unfolding kept block_matches_def list_ex_iff ..
  have "get_device w self names False elevate auto_elevate tr =
          (case map parse_block kept of
             [b] \<Rightarrow> (Inr (Single b), tr1)
           | _ \<Rightarrow> (Inl DeviceNotFoundError, tr1))"
    using run clean
    by (simp add: get_device.simps [of w self names False elevate auto_elevate tr]
          dev_handle_error_def dev_wrap_def k wanted split: list.splits)
  moreover have "length kept = 1 \<Longrightarrow> kept = [hd kept]"
    by (cases kept) simp_all
  ultimately show ?thesis
    by (auto simp add: join_split_blocks split: list.splits)
qed


text \<open>
  C8. Exactly one matching block is not enough for \<open>get_device\<close> to return it. The
  whole enumeration goes through the device classifier first, and the pattern \<open>50\<close> of
  \<open>DevicePropertyExistsError\<close>, written for the return code of an enable or disable
  command, is searched in that text as well. Whenever the classifier answers
  \<open>DevicePropertyExistsError\<close> to the enumeration (the digits 50 in an instance
  identifier are enough), \<open>get_device\<close> raises it, whatever the blocks are: neither the
  fields of the one matching block nor \<open>DeviceNotFoundError\<close>.
\<close>

theorem get_device_fifty_raises:
  assumes "run_ps w EnumDevices elevate False True False tr = (Inr (rc, out, err), ta)"
    and "pnp_check_error (strip (lower (out @ nl @ err))) None None
           = Inl DevicePropertyExistsError"
  shows "get_device w self names get_all elevate auto_elevate tr
           = (Inl DevicePropertyExistsError, ta)"
  using assms
  by (simp add: get_device.simps [of w self names get_all elevate auto_elevate tr]
        dev_handle_error_def dev_wrap_def)

theorem get_device_fifty_raises_witness:
  "run_ps fifty_world EnumDevices False False True False []
     = (Inr (0, fifty_enum, []), [Spawn EnumDevices False True])
   \<and> pnp_check_error (strip (lower (fifty_enum @ nl @ []))) None None
       = Inl DevicePropertyExistsError
   \<and> split_blocks fifty_enum
       = [''Microsoft PnP Utility'',
          ''Instance ID: P1050'' @ nl @ ''Description: touch screen'',
          ''Instance ID: M'' @ nl @ ''Description: mouse'']
   \<and> filter (block_matches (DEVICE_NAMES Touchscreen)) (split_blocks fifty_enum)
       = [''Instance ID: P1050'' @ nl @ ''Description: touch screen'']
   \<and> get_device fifty_world touchscreen0 None False False True []
       = (Inl DevicePropertyExistsError, [Spawn EnumDevices False True])"
proof -
  have a: "run_ps fifty_world EnumDevices False False True False []
     = (Inr (0, fifty_enum, []), [Spawn EnumDevices False True])"
    by code_simp
  have b: "pnp_check_error (strip (lower (fifty_enum @ nl @ []))) None None
       = Inl DevicePropertyExistsError"
    by code_simp
  have c: "split_blocks fifty_enum
       = [''Microsoft PnP Utility'',
          ''Instance ID: P1050'' @ nl @ ''Description: touch screen'',
          ''Instance ID: M'' @ nl @ ''Description: mouse'']"
    by code_simp
  have d: "filter (block_matches (DEVICE_NAMES Touchscreen)) (split_blocks fifty_enum)
       = [''Instance ID: P1050'' @ nl @ ''Description: touch screen'']"
    by code_simp
  from get_device_fifty_raises [OF a b, of touchscreen0 None False True] a b c d
  show ?thesis by simp
qed


section \<open>The command runner's retry\<close>

lemma run_ps_elevated_trace:
  "snd (run_ps w cmd True auto_elevate propogate check tr) = tr @ [Spawn cmd True propogate]"
  by (simp add: run_ps.simps [of w cmd True] Let_def split: sum.splits option.splits prod.splits)

text \<open>
  C4. An unelevated run with \<open>auto_elevate\<close> whose output classifies as access denied
  asks for consent once. Granted, the result is that of one elevated run of the same
  command, and the trace ends with that single run: no second question, no further run.
  Declined, the call raises \<open>UserAbortedError\<close> and no further process is started.
\<close>

theorem run_ps_access_denied:
  assumes r: "r = exec w (tr @ [Spawn cmd False propogate])"
    and denied: "cmd_check_error (stdout r @ nl @ stderr r) (Some (returncode r))
                   (Some [AccessDeniedError]) = Inl AccessDeniedError"
    and tr1: "tr1 = tr @ [Spawn cmd False propogate, AskElevate]"
  shows "run_ps w cmd False True propogate check tr =
           (if consent w tr1
            then (fst (run_ps w cmd True True True False tr1), tr1 @ [Spawn cmd True True])
            else (Inl UserAbortedError, tr1))"
proof -
  have "snd (run_ps w cmd True True True False tr1) = tr1 @ [Spawn cmd True True]"
    by (rule run_ps_elevated_trace)
  then have e: "run_ps w cmd True True True False tr1
      = (fst (run_ps w cmd True True True False tr1), tr1 @ [Spawn cmd True True])"
    by (simp add: prod_eq_iff)
  show ?thesis
    using denied e
    by (simp add: run_ps.simps [of w cmd False True propogate check tr] Let_def r [symmetric] tr1)
qed

theorem run_ps_access_denied_witness:
  "cmd_check_error (denied @ nl @ []) (Some 0) (Some [AccessDeniedError]) = Inl AccessDeniedError
   \<and> run_ps (locked_world True) (TestPath ''HKCU:'') False True True False []
       = (Inr (0, [], []),
          [Spawn (TestPath ''HKCU:'') False True, AskElevate, Spawn (TestPath ''HKCU:'') True True])
   \<and> run_ps (locked_world False) (TestPath ''HKCU:'') False True True False []
       = (Inl UserAbortedError, [Spawn (TestPath ''HKCU:'') False True, AskElevate])"
proof -
  have d: "cmd_check_error (denied @ nl @ []) (Some 0) (Some [AccessDeniedError])
             = Inl AccessDeniedError"
    by code_simp
  have x: "exec (locked_world b) ([] @ [Spawn (TestPath ''HKCU:'') False True]) = says denied" for b
    by (simp add: locked_world_def)
  have s: "stdout (says denied) = denied" "stderr (says denied) = []" "returncode (says denied) = 0"
    by (simp_all add: says_def quiet_def)
  have el: "fst (run_ps (locked_world True) (TestPath ''HKCU:'') True True True False
                   [Spawn (TestPath ''HKCU:'') False True, AskElevate]) = Inr (0, [], [])"
    by code_simp
  have c: "consent (locked_world b) t = b" for b t
    by (simp add: locked_world_def)
  from run_ps_access_denied [of "says denied" "locked_world True" "[]" "TestPath ''HKCU:''" True _ False]
       run_ps_access_denied [of "says denied" "locked_world False" "[]" "TestPath ''HKCU:''" True _ False]
       d x s el c
  show ?thesis by simp
qed


section \<open>Writing a registry value\<close>

text \<open>
  C2. The claim is that \<open>set_reg\<close> creates a key that does not exist yet. The code does
  not: when the value is not there and both \<open>Test-Path\<close> probes say the key does not
  exist, the guard \<open>if not cls.test_reg(...)\<close> raises \<open>RuntimeError\<close>, and no \<open>New-Item\<close>
  is started. The guard is the negation of what its comment and message say.
\<close>

theorem set_reg_missing_key_raises:
  assumes "get_reg w path n elevate auto_elevate tr = (Inl RegistryItemNotFoundError, tr0)"
    and "test_reg w path None elevate auto_elevate tr0 = (Inr False, tr1)"
    and "test_reg w path None elevate auto_elevate tr1 = (Inr False, tr2)"
  shows "set_reg w path (Some n) (Some v) (Some t) True elevate auto_elevate tr
           = (Inl RuntimeError, tr2)"
  using assms
  by (simp add: set_reg.simps [of w path "Some n" "Some v" "Some t" True elevate auto_elevate tr]
        reg_handle_error_def reg_wrap_def)

theorem set_reg_missing_key_raises_witness:
  "get_reg fresh_world ''HKCU:K'' ''V'' False True []
     = (Inl RegistryItemNotFoundError, [Spawn (GetValue ''HKCU:K'' ''V'') False True])
   \<and> test_reg fresh_world ''HKCU:K'' None False True [Spawn (GetValue ''HKCU:K'' ''V'') False True]
       = (Inr False, [Spawn (GetValue ''HKCU:K'' ''V'') False True,
                      Spawn (TestPath ''HKCU:K'') False True])
   \<and> test_reg fresh_world ''HKCU:K'' None False True
         [Spawn (GetValue ''HKCU:K'' ''V'') False True, Spawn (TestPath ''HKCU:K'') False True]
       = (Inr False, [Spawn (GetValue ''HKCU:K'' ''V'') False True,
                      Spawn (TestPath ''HKCU:K'') False True,
                      Spawn (TestPath ''HKCU:K'') False True])
   \<and> set_reg fresh_world ''HKCU:K'' (Some ''V'') (Some (VInt 1)) (Some (TInt 4)) True False True []
       = (Inl RuntimeError, [Spawn (GetValue ''HKCU:K'' ''V'') False True,
                             Spawn (TestPath ''HKCU:K'') False True,
                             Spawn (TestPath ''HKCU:K'') False True])"
proof -
  have a: "get_reg fresh_world ''HKCU:K'' ''V'' False True []
     = (Inl RegistryItemNotFoundError, [Spawn (GetValue ''HKCU:K'' ''V'') False True])"
    by code_simp
  have b: "test_reg fresh_world ''HKCU:K'' None False True [Spawn (GetValue ''HKCU:K'' ''V'') False True]
       = (Inr False, [Spawn (GetValue ''HKCU:K'' ''V'') False True,
                      Spawn (TestPath ''HKCU:K'') False True])"
    by code_simp
  have c: "test_reg fresh_world ''HKCU:K'' None False True
         [Spawn (GetValue ''HKCU:K'' ''V'') False True, Spawn (TestPath ''HKCU:K'') False True]
       = (Inr False, [Spawn (GetValue ''HKCU:K'' ''V'') False True,
                      Spawn (TestPath ''HKCU:K'') False True,
                      Spawn (TestPath ''HKCU:K'') False True])"
    by code_simp
  from set_reg_missing_key_raises [OF a b c, of "VInt 1" "TInt 4"] a b c
  show ?thesis by simp
qed

text \<open>
  C5. The claim is that a refused write of a named value is retried elevated as the same
  write. The retry of \<open>set_reg\<close> is \<open>cls.set_reg(path, name, elevate=True)\<close>: with the
  name but without value and type it raises \<open>ValueError\<close>, and nothing is written.
\<close>

theorem set_reg_retry_bad_parameters:
  assumes "get_reg w path n False True tr = (Inr (v0, t0), tr0)"
    and "normalise1 (TInt t0) = Inr g"
    and "normalise1 t = Inr ti"
    and "(v0, g) \<noteq> (v, ti)"
    and "test_reg w path None False True tr0 = (Inr True, tr1)"
    and "get_name1 t = Inr tn"
    and "run_ps w (SetItemProperty path n v tn) False True True False tr1 = (Inr (rc, out, err), tr2)"
    and "strip out \<noteq> [] \<or> strip err \<noteq> []"
    and "reg_check_error (out @ nl @ err) None None = Inl RegistryPermissionError"
    and "consent w (tr2 @ [AskElevate])"
  shows "set_reg w path (Some n) (Some v) (Some t) True False True tr
           = (Inl ValueError, tr2 @ [AskElevate])"
proof -
  have retry: "set_reg w path (Some n) None None True True True (tr2 @ [AskElevate])
                 = (Inl ValueError, tr2 @ [AskElevate])"
    by (simp add: set_reg.simps [of w path "Some n" None None] reg_handle_error_def reg_wrap_def)
  show ?thesis
    using assms retry
    by (simp add: set_reg.simps [of w path "Some n" "Some v" "Some t" True False True tr]
          reg_handle_error_def reg_wrap_def Let_def)
qed

theorem set_reg_retry_bad_parameters_witness:
  "get_reg refused_world ''HKCU:K'' ''V'' False True []
     = (Inr (VInt 0, 4), [Spawn (GetValue ''HKCU:K'' ''V'') False True])
   \<and> test_reg refused_world ''HKCU:K'' None False True [Spawn (GetValue ''HKCU:K'' ''V'') False True]
       = (Inr True, probes)
   \<and> run_ps refused_world sip False True True False probes
       = (Inr (0, [], denied), probes @ [Spawn sip False True, AskElevate, Spawn sip True True])
   \<and> reg_check_error ([] @ nl @ denied) None None = Inl RegistryPermissionError
   \<and> set_reg refused_world ''HKCU:K'' (Some ''V'') (Some (VInt 1)) (Some (TInt 4)) True False True []
       = (Inl ValueError,
          probes @ [Spawn sip False True, AskElevate, Spawn sip True True, AskElevate])"
proof -
  have a: "get_reg refused_world ''HKCU:K'' ''V'' False True []
     = (Inr (VInt 0, 4), [Spawn (GetValue ''HKCU:K'' ''V'') False True])"
    by code_simp
  have b: "test_reg refused_world ''HKCU:K'' None False True [Spawn (GetValue ''HKCU:K'' ''V'') False True]
       = (Inr True, probes)"
    by code_simp
  have c: "run_ps refused_world (SetItemProperty ''HKCU:K'' ''V'' (VInt 1) ''DWORD'') False True True False probes
       = (Inr (0, [], denied), probes @ [Spawn sip False True, AskElevate, Spawn sip True True])"
    by code_simp
  have d: "reg_check_error ([] @ nl @ denied) None None = Inl RegistryPermissionError"
    by code_simp
  have e: "normalise1 (TInt 4) = Inr 4" "get_name1 (TInt 4) = Inr ''DWORD''"
    by code_simp+
  have f: "strip [] \<noteq> [] \<or> strip denied \<noteq> []"
    by code_simp
  have g: "consent refused_world t" for t
    by (simp add: refused_world_def)
  have h: "(VInt 0, 4::int) \<noteq> (VInt 1, 4)" by simp
  from set_reg_retry_bad_parameters [OF a e(1) e(1) h b e(2) c f d g] a b c d
  show ?thesis by (simp add: sip_def)
qed


section \<open>Notifications\<close>

text \<open>
  Nothing below \<open>toggle\<close> notifies: every function of the runner, the registry accessor
  and the model only appends process starts and consent questions to the trace.
\<close>

lemma silent_refl [simp]: "silent tr tr"
  by (simp add: silent_def)

lemma silent_trans: "silent a b \<Longrightarrow> silent b c \<Longrightarrow> silent a c"
  by (auto simp add: silent_def)

lemma silent_ask [simp]: "silent a b \<Longrightarrow> silent a (b @ [AskElevate])"
  by (auto simp add: silent_def)

lemma silent_spawn [simp]: "silent a b \<Longrightarrow> silent a (b @ [Spawn c e p])"
  by (auto simp add: silent_def)

lemma silent_ask_left: "silent (b @ [AskElevate]) c \<Longrightarrow> silent b c"
  by (auto simp add: silent_def prefix_def)

lemma silent_decompose:
  "silent tr tr' \<longleftrightarrow> (\<exists>evs. tr' = tr @ evs \<and> filter is_update evs = [])"
  by (auto simp add: silent_def prefix_def)

lemma run_ps_silent:
  assumes "run_ps w cmd elevate auto_elevate propogate check tr = (res, tr')"
  shows "silent tr tr'"
proof (cases elevate)
  case True
  with assms run_ps_elevated_trace [of w cmd auto_elevate propogate check tr]
  show ?thesis by (auto simp add: silent_def)
next
  case False
  let ?t = "tr @ [Spawn cmd False propogate, AskElevate]"
  have "snd (run_ps w cmd True True True False ?t) = ?t @ [Spawn cmd True True]"
    by (rule run_ps_elevated_trace)
  then have s: "silent tr (snd (run_ps w cmd True True True False ?t))"
    by (simp add: silent_def)
  from assms False s show ?thesis
    by (auto simp add: run_ps.simps [of w cmd False] Let_def silent_def split: sum.splits if_splits)
qed

lemma get_reg_silent_el:
  assumes "get_reg w path name True auto_elevate tr = (res, tr')"
  shows "silent tr tr'"
  using assms
  by (auto simp add: get_reg.simps [of w path name True] reg_handle_error_def Let_def
        split: sum.splits prod.splits if_splits jfile.splits
        dest!: run_ps_silent)

lemma get_reg_silent:
  assumes "get_reg w path name elevate auto_elevate tr = (res, tr')"
  shows "silent tr tr'"
proof (cases elevate)
  case True
  with assms show ?thesis by (auto dest: get_reg_silent_el)
next
  case False
  with assms show ?thesis
    by (auto simp add: get_reg.simps [of w path name False] reg_handle_error_def Let_def
        split: sum.splits prod.splits if_splits jfile.splits
        dest!: run_ps_silent get_reg_silent_el silent_ask_left intro: silent_trans)
qed

lemma test_reg_silent:
  assumes "test_reg w path name elevate auto_elevate tr = (res, tr')"
  shows "silent tr tr'"
  using assms
  by (auto simp add: test_reg_def reg_handle_error_def
        split: option.splits sum.splits prod.splits if_splits
        dest!: run_ps_silent get_reg_silent)

lemma set_reg_silent_step:
  assumes rec: "\<And>r t t0. \<not> elevate \<Longrightarrow>
                  set_reg w path name None None True True True t0 = (r, t) \<Longrightarrow> silent t0 t"
    and run: "set_reg w path name val reg_type skip elevate auto_elevate tr = (res, tr')"
  shows "silent tr tr'"
proof -
  define args where "args =
          (case (name, val, reg_type) of
             (Some n, Some v, Some t) \<Rightarrow> Inr (Some (n, v, t))
           | (None, None, None) \<Rightarrow> Inr None
           | _ \<Rightarrow> Inl ValueError)"
  define skipped where "skipped new_property =
          (case new_property of
             None \<Rightarrow> Continue tr
           | Some (n, v, t) \<Rightarrow>
               if skip then
                 (case get_reg w path n elevate auto_elevate tr of
                    (Inl e, tr1) \<Rightarrow>
                      if e = RegistryItemNotFoundError then Continue tr1
                      else Return (Inl e, tr1)
                  | (Inr (get_val, get_type), tr1) \<Rightarrow>
                      (case normalise1 (TInt get_type) of
                         Inl e \<Rightarrow> Return (Inl e, tr1)
                       | Inr gt \<Rightarrow>
                           (case normalise1 t of
                              Inl e \<Rightarrow> Return (Inl e, tr1)
                            | Inr rt \<Rightarrow>
                                if (get_val, gt) = (v, rt) then Return (Inr (), tr1)
                                else Continue tr1)))
               else Continue tr)" for new_property :: "(string \<times> pyval \<times> regtype) option"
  define written where "written new_property exists tr1 =
          (if exists then
             (case new_property of
                None \<Rightarrow> Return (Inr (), tr1)
              | Some (n, v, t) \<Rightarrow>
                  (case get_name1 t of
                     Inl e \<Rightarrow> Return (Inl e, tr1)
                   | Inr tn \<Rightarrow>
                       (case run_ps w (SetItemProperty path n v tn) elevate auto_elevate
                               True False tr1 of
                          (Inl e, tr2) \<Rightarrow> Return (Inl e, tr2)
                        | (Inr (rc, out, err), tr2) \<Rightarrow> Continue (out, err, tr2))))
           else
             (case test_reg w path None elevate auto_elevate tr1 of
                (Inl e, tr2) \<Rightarrow> Return (Inl e, tr2)
              | (Inr found, tr2) \<Rightarrow>
                  if \<not> found then Return (Inl RuntimeError, tr2)
                  else
                    (case
                       (case new_property of
                          None \<Rightarrow> Inr None
                        | Some (n, v, t) \<Rightarrow>
                            (case get_name1 t of
                               Inl e \<Rightarrow> Inl e
                             | Inr tn \<Rightarrow> Inr (Some (n, v, tn))))
                     of
                       Inl e \<Rightarrow> Return (Inl e, tr2)
                     | Inr prop \<Rightarrow>
                         (case run_ps w (NewItem path prop) elevate auto_elevate
                                 True False tr2 of
                            (Inl e, tr3) \<Rightarrow> Return (Inl e, tr3)
                          | (Inr (rc, out, err), tr3) \<Rightarrow> Continue (out, err, tr3)))))"
    for new_property :: "(string \<times> pyval \<times> regtype) option" and exists :: bool
      and tr1 :: "event list"
  define checked where "checked out err tr4 =
           (if strip out \<noteq> [] \<or> strip err \<noteq> [] then
              (case reg_check_error (out @ nl @ err) None None of
                 Inr _ \<Rightarrow> (Inl RuntimeError, tr4)
               | Inl e \<Rightarrow>
                   if e = RegistryPermissionError then
                     (if auto_elevate \<and> \<not> elevate then
                        (let tr5 = tr4 @ [AskElevate] in
                         if consent w tr5
                         then set_reg w path name None None True True True tr5
                         else (Inl e, tr5))
                      else (Inl e, tr4))
                   else (Inl e, tr4))
            else (Inr (), tr4))" for out err :: string and tr4 :: "event list"
  have eq: "set_reg w path name val reg_type skip elevate auto_elevate tr =
     reg_handle_error
       (case args of
          Inl e \<Rightarrow> (Inl e, tr)
        | Inr new_property \<Rightarrow>
            (case skipped new_property of
               Return res \<Rightarrow> res
             | Continue tr0 \<Rightarrow>
                 (case test_reg w path None elevate auto_elevate tr0 of
                    (Inl e, tr1) \<Rightarrow> (Inl e, tr1)
                  | (Inr exists, tr1) \<Rightarrow>
                      (case written new_property exists tr1 of
                         Return res \<Rightarrow> res
                       | Continue (out, err, tr4) \<Rightarrow> checked out err tr4))))"
    unfolding args_def skipped_def written_def checked_def
    by (rule set_reg.simps)
  have skipped: "silent tr (case skipped np of Return res \<Rightarrow> snd res | Continue t \<Rightarrow> t)" for np
    by (auto simp add: skipped_def split: option.splits sum.splits prod.splits
          dest!: get_reg_silent)
  have written: "silent t1 (case written np ex t1 of Return res \<Rightarrow> snd res
                                                    | Continue (out, err, t) \<Rightarrow> t)" for np ex t1
    by (auto simp add: written_def split: option.splits sum.splits prod.splits
          dest!: run_ps_silent test_reg_silent intro: silent_trans)
  have checked: "silent t4 (snd (checked out err t4))" for out err t4
  proof (cases "\<not> elevate \<and> consent w (t4 @ [AskElevate])")
    case True
    obtain r t where rt: "set_reg w path name None None True True True (t4 @ [AskElevate]) = (r, t)"
      by (cases "set_reg w path name None None True True True (t4 @ [AskElevate])")
    with True rec have "silent (t4 @ [AskElevate]) t" by blast
    then have "silent t4 t" by (rule silent_ask_left)
    with rt show ?thesis
      by (simp add: checked_def Let_def split: sum.splits)
  next
    case False
    then show ?thesis
      by (auto simp add: checked_def Let_def split: sum.splits)
  qed
  have snd_handle: "snd (reg_handle_error x) = snd x" for x :: "(error + unit) \<times> event list"
    by (cases x) (simp add: reg_handle_error_def split: sum.splits)
  have "silent tr (snd (set_reg w path name val reg_type skip elevate auto_elevate tr))"
  proof (cases args)
    case (Inl e)
    then show ?thesis by (simp add: eq snd_handle)
  next
    case (Inr np)
    show ?thesis
    proof (cases "skipped np")
      case (Return res)
      with Inr skipped [of np] show ?thesis by (simp add: eq snd_handle)
    next
      case (Continue t0)
      with skipped [of np] have s0: "silent tr t0" by simp
      obtain r1 t1 where t: "test_reg w path None elevate auto_elevate t0 = (r1, t1)"
        by (cases "test_reg w path None elevate auto_elevate t0")
      then have s1: "silent t0 t1" by (rule test_reg_silent)
      show ?thesis
      proof (cases r1)
        case (Inl e)
        with Inr Continue t s0 s1 show ?thesis
          by (auto simp add: eq snd_handle intro: silent_trans)
      next
        case ex: (Inr ex)
        show ?thesis
        proof (cases "written np ex t1")
          case (Return res)
          with written [of t1 np ex] have "silent t1 (snd res)" by simp
          with s0 s1 have "silent tr (snd res)" by (blast intro: silent_trans)
          with Inr Continue t ex Return show ?thesis by (simp add: eq snd_handle)
        next
          case c: (Continue oet)
          obtain out err t4 where oet: "oet = (out, err, t4)" by (cases oet)
          with c written [of t1 np ex] have "silent t1 t4" by simp
          with s0 s1 checked [of t4 out err] have "silent tr (snd (checked out err t4))"
            by (blast intro: silent_trans)
          with Inr Continue t ex c oet show ?thesis by (simp add: eq snd_handle)
        qed
      qed
    qed
  qed
  with run show ?thesis by simp
qed

lemma set_reg_silent:
  assumes "set_reg w path name val reg_type skip elevate auto_elevate tr = (res, tr')"
  shows "silent tr tr'"
proof -
  have el: "set_reg w path name v t s True a t0 = (r, t1) \<Longrightarrow> silent t0 t1" for v t s a t0 r t1
    by (rule set_reg_silent_step [where elevate = True]) simp_all
  from assms show ?thesis
    by (rule set_reg_silent_step [rotated]) (rule el)
qed

lemma del_reg_silent_el:
  assumes "del_reg w path name True auto_elevate tr = (res, tr')"
  shows "silent tr tr'"
  using assms
  by (auto simp add: del_reg.simps [of w path name True] reg_handle_error_def Let_def
        split: sum.splits prod.splits if_splits
        dest!: run_ps_silent test_reg_silent intro: silent_trans)

lemma del_reg_silent:
  assumes "del_reg w path name elevate auto_elevate tr = (res, tr')"
  shows "silent tr tr'"
proof (cases elevate)
  case True
  with assms show ?thesis by (auto dest: del_reg_silent_el)
next
  case False
  with assms show ?thesis
    by (auto simp add: del_reg.simps [of w path name False] reg_handle_error_def Let_def
        split: sum.splits prod.splits if_splits
        dest!: run_ps_silent test_reg_silent del_reg_silent_el silent_ask_left
        intro: silent_trans)
qed

lemma get_device_silent_el:
  assumes "get_device w self names get_all True auto_elevate tr = (res, tr')"
  shows "silent tr tr'"
  using assms
  by (auto simp add: get_device.simps [of w self names get_all True] dev_handle_error_def Let_def
        split: sum.splits prod.splits if_splits list.splits
        dest!: run_ps_silent)

lemma get_device_silent:
  assumes "get_device w self names get_all elevate auto_elevate tr = (res, tr')"
  shows "silent tr tr'"
proof (cases elevate)
  case True
  with assms show ?thesis by (auto dest: get_device_silent_el)
next
  case False
  with assms show ?thesis
    by (auto simp add: get_device.simps [of w self names get_all False] dev_handle_error_def
          Let_def
        split: sum.splits prod.splits if_splits list.splits
        dest!: run_ps_silent get_device_silent_el silent_ask_left intro: silent_trans)
qed

lemma u_toggle_silent_step:
  assumes rec: "\<And>r t t0. \<not> elevate \<Longrightarrow>
                  u_toggle w self st md True True t0 = (r, t) \<Longrightarrow> silent t0 t"
    and run: "u_toggle w self st md elevate auto_elevate tr = (res, tr')"
  shows "silent tr tr'"
proof (cases "u_check (cls self) (Some st) (Some md)")
  case (Inl e)
  with run show ?thesis
    by (auto simp add: u_toggle.simps [of w self st md elevate auto_elevate tr]
          dev_handle_error_def split: if_splits)
next
  case ok: (Inr u)
  show ?thesis
  proof (cases "md = DEVICE")
    case False
    with run ok show ?thesis
      by (auto simp add: u_toggle.simps [of w self st md elevate auto_elevate tr]
            dev_handle_error_def
          split: option.splits state.splits sum.splits prod.splits if_splits
          dest!: set_reg_silent test_reg_silent del_reg_silent intro: silent_trans)
  next
    case True
    have rec': "silent t0 t"
      if "u_toggle w self st DEVICE True True (t0 @ [AskElevate]) = (r, t)" "\<not> elevate"
      for t0 r t
      using rec [of "t0 @ [AskElevate]" r t] that True by (auto dest: silent_ask_left)
    have "silent tr (snd (u_toggle w self st md elevate auto_elevate tr))"
      using True ok
      by (auto simp add: u_toggle.simps [of w self st DEVICE elevate auto_elevate tr]
            dev_handle_error_def Let_def
          split: sum.splits prod.splits
          dest!: get_device_silent run_ps_silent rec' intro: silent_trans)
    with run show ?thesis by simp
  qed
qed

lemma u_toggle_silent:
  assumes "u_toggle w self st md elevate auto_elevate tr = (res, tr')"
  shows "silent tr tr'"
proof -
  have el: "u_toggle w self st md True a t0 = (r, t1) \<Longrightarrow> silent t0 t1" for a t0 r t1
    by (rule u_toggle_silent_step [where elevate = True]) simp_all
  from assms show ?thesis
    by (rule u_toggle_silent_step [rotated]) (rule el)
qed

lemma pnp_check_blank: "pnp_check_error nl None None = Inr ()"
  by code_simp

lemma notify_each_returns:
  "notify_each w obs tr = (Inr u, tr') \<Longrightarrow> tr' = tr @ map Update obs"
proof (induction obs arbitrary: tr)
  case Nil
  then show ?case by simp
next
  case (Cons ob obs)
  then have "notify_each w obs (tr @ [Update ob]) = (Inr u, tr')"
    by (simp add: Let_def split: option.splits)
  from Cons.IH [OF this] show ?case by simp
qed

lemma notify_each_raises:
  "notify_each w obs tr = (Inl e, tr') \<Longrightarrow>
     \<exists>k<length obs. tr' = tr @ map Update (take (Suc k) obs) \<and> on_update w tr' = Some e"
proof (induction obs arbitrary: tr)
  case Nil
  then show ?case by simp
next
  case (Cons ob obs)
  show ?case
  proof (cases "on_update w (tr @ [Update ob])")
    case (Some x)
    with Cons.prems have "tr' = tr @ [Update ob]" "x = e"
      by (simp_all add: Let_def)
    with Some show ?thesis by (intro exI [of _ 0]) simp
  next
    case None
    with Cons.prems have "notify_each w obs (tr @ [Update ob]) = (Inl e, tr')"
      by (simp add: Let_def)
    from Cons.IH [OF this] obtain k where
      "k < length obs" "tr' = (tr @ [Update ob]) @ map Update (take (Suc k) obs)"
      "on_update w tr' = Some e"
      by blast
    then show ?thesis by (intro exI [of _ "Suc k"]) simp
  qed
qed

lemma notify_each_quiet:
  "(\<forall>k<length obs. on_update w (tr @ map Update (take (Suc k) obs)) = None) \<Longrightarrow>
     notify_each w obs tr = (Inr (), tr @ map Update obs)"
proof (induction obs arbitrary: tr)
  case Nil
  then show ?case by simp
next
  case (Cons ob obs)
  from Cons.prems [rule_format, of 0] have first: "on_update w (tr @ [Update ob]) = None"
    by simp
  have "on_update w ((tr @ [Update ob]) @ map Update (take (Suc k) obs)) = None"
    if "k < length obs" for k
    using Cons.prems [rule_format, of "Suc k"] that by simp
  then have "notify_each w obs (tr @ [Update ob]) = (Inr (), (tr @ [Update ob]) @ map Update obs)"
    by (intro Cons.IH) blast
  with first show ?case by (simp add: Let_def)
qed

text \<open>
  C3, as the code has it. A \<open>toggle\<close> that returns has run \<open>_toggle\<close> to its end, retries
  included, without a single notification, and then has called \<open>update\<close> once on each
  attached observer. A \<open>toggle\<close> that raises either raises what \<open>_toggle\<close> raised, and then
  nobody has been notified, or \<open>_toggle\<close> returned and an observer's \<open>update\<close> raised:
  then the observers up to that one have been called once each and its exception is what
  \<open>toggle\<close> raises. When the device is found and the enable or disable command answers
  with text classified as \<open>DevicePropertyExistsError\<close>, \<open>_toggle\<close> returns, and \<open>toggle\<close>
  returns having notified every observer once unless an \<open>update\<close> raises.
\<close>

theorem toggle_notifies_once:
  "(toggle w self st md elevate auto_elevate tr = (Inr (), tr') \<longrightarrow>
      (\<exists>evs. u_toggle w self st md elevate auto_elevate tr = (Inr (), tr @ evs)
             \<and> filter is_update evs = []
             \<and> tr' = tr @ evs @ map Update (observers self)))
   \<and> (toggle w self st md elevate auto_elevate tr = (Inl e, tr') \<longrightarrow>
        (\<exists>evs. filter is_update evs = []
           \<and> (u_toggle w self st md elevate auto_elevate tr = (Inl e, tr') \<and> tr' = tr @ evs
               \<or> u_toggle w self st md elevate auto_elevate tr = (Inr (), tr @ evs)
                 \<and> (\<exists>k<length (observers self).
                        tr' = tr @ evs @ map Update (take (Suc k) (observers self))
                        \<and> on_update w tr' = Some e))))
   \<and> (st \<noteq> NONE
        \<and> get_device w self None False False True tr = (Inr d, ta)
        \<and> subscript d ''Instance ID'' = Inr instance_id
        \<and> run_ps w (PnpDevice (state_str st) instance_id) elevate False True False ta
            = (Inr (rc, out, err), tb)
        \<and> pnp_check_error (strip (lower out) @ nl @ strip (lower err)) None None
            = Inl DevicePropertyExistsError
      \<longrightarrow> u_toggle w self st DEVICE elevate auto_elevate tr = (Inr (), tb)
          \<and> ((\<forall>k<length (observers self).
                 on_update w (tb @ map Update (take (Suc k) (observers self))) = None)
               \<longrightarrow> toggle w self st DEVICE elevate auto_elevate tr
                     = (Inr (), tb @ map Update (observers self))))"
proof (intro conjI impI)
  assume ok: "toggle w self st md elevate auto_elevate tr = (Inr (), tr')"
  obtain r t where u: "u_toggle w self st md elevate auto_elevate tr = (r, t)"
    by (cases "u_toggle w self st md elevate auto_elevate tr")
  with ok have r: "r = Inr ()" and n: "notify_each w (observers self) t = (Inr (), tr')"
    by (auto simp add: toggle_def notify_def split: sum.splits prod.splits)
  from n have t: "tr' = t @ map Update (observers self)"
    by (rule notify_each_returns)
  from u have "silent tr t" by (rule u_toggle_silent)
  then obtain evs where "t = tr @ evs" "filter is_update evs = []"
    by (auto simp add: silent_decompose)
  with u r t show "\<exists>evs. u_toggle w self st md elevate auto_elevate tr = (Inr (), tr @ evs)
             \<and> filter is_update evs = []
             \<and> tr' = tr @ evs @ map Update (observers self)"
    by auto
next
  assume bad: "toggle w self st md elevate auto_elevate tr = (Inl e, tr')"
  obtain r t where u: "u_toggle w self st md elevate auto_elevate tr = (r, t)"
    by (cases "u_toggle w self st md elevate auto_elevate tr")
  from u have "silent tr t" by (rule u_toggle_silent)
  then obtain evs where evs: "t = tr @ evs" "filter is_update evs = []"
    by (auto simp add: silent_decompose)
  show "\<exists>evs. filter is_update evs = []
           \<and> (u_toggle w self st md elevate auto_elevate tr = (Inl e, tr') \<and> tr' = tr @ evs
               \<or> u_toggle w self st md elevate auto_elevate tr = (Inr (), tr @ evs)
                 \<and> (\<exists>k<length (observers self).
                        tr' = tr @ evs @ map Update (take (Suc k) (observers self))
                        \<and> on_update w tr' = Some e))"
  proof (cases r)
    case (Inl x)
    with bad u have "x = e" "t = tr'"
      by (simp_all add: toggle_def)
    with Inl u evs show ?thesis by auto
  next
    case (Inr x)
    with bad u have "notify_each w (observers self) t = (Inl e, tr')"
      by (auto simp add: toggle_def notify_def split: sum.splits prod.splits)
    from notify_each_raises [OF this] obtain k where
      "k < length (observers self)" "tr' = t @ map Update (take (Suc k) (observers self))"
      "on_update w tr' = Some e"
      by blast
    with Inr u evs show ?thesis by auto
  qed
next
  assume h: "st \<noteq> NONE
        \<and> get_device w self None False False True tr = (Inr d, ta)
        \<and> subscript d ''Instance ID'' = Inr instance_id
        \<and> run_ps w (PnpDevice (state_str st) instance_id) elevate False True False ta
            = (Inr (rc, out, err), tb)
        \<and> pnp_check_error (strip (lower out) @ nl @ strip (lower err)) None None
            = Inl DevicePropertyExistsError"
  then have "strip (lower out) \<noteq> [] \<or> strip (lower err) \<noteq> []"
    using pnp_check_blank by auto
  with h show u: "u_toggle w self st DEVICE elevate auto_elevate tr = (Inr (), tb)"
    by (auto simp add: u_toggle.simps [of w self st DEVICE elevate auto_elevate tr]
          u_check_def base_check_def dev_handle_error_def Let_def)
  assume "\<forall>k<length (observers self).
            on_update w (tb @ map Update (take (Suc k) (observers self))) = None"
  then have "notify_each w (observers self) tb = (Inr (), tb @ map Update (observers self))"
    by (rule notify_each_quiet)
  with u show "toggle w self st DEVICE elevate auto_elevate tr
            = (Inr (), tb @ map Update (observers self))"
    by (simp add: toggle_def notify_def)
qed

theorem toggle_notifies_once_witness:
  "toggle guarded_world touchscreen0 ENABLE DEVICE False True []
     = (Inr (), [Spawn EnumDevices False True, Spawn enable_cmd False True, AskElevate,
                 Spawn EnumDevices False True, Spawn enable_cmd True True, Update 1, Update 2])
   \<and> toggle denied_world touchscreen0 ENABLE DEVICE False True []
       = (Inl DeviceOperationAbortedError, [Spawn EnumDevices False True, AskElevate])
   \<and> get_device enabled_world touchscreen0 None False False True []
       = (Inr (Single [(''Instance ID'', ''touchscreen''), (''Status'', ''Started'')]),
          [Spawn EnumDevices False True])
   \<and> run_ps enabled_world enable_cmd False False True False [Spawn EnumDevices False True]
       = (Inr (0, ''Device is already enabled.'', []),
          [Spawn EnumDevices False True, Spawn enable_cmd False True])
   \<and> pnp_check_error (strip (lower ''Device is already enabled.'') @ nl @ strip (lower []))
         None None = Inl DevicePropertyExistsError
   \<and> toggle enabled_world touchscreen0 ENABLE DEVICE False True []
       = (Inr (), [Spawn EnumDevices False True, Spawn enable_cmd False True, Update 1, Update 2])"
proof -
  have a: "toggle guarded_world touchscreen0 ENABLE DEVICE False True []
     = (Inr (), [Spawn EnumDevices False True, Spawn enable_cmd False True, AskElevate,
                 Spawn EnumDevices False True, Spawn enable_cmd True True, Update 1, Update 2])"
    by code_simp
  have b: "toggle denied_world touchscreen0 ENABLE DEVICE False True []
       = (Inl DeviceOperationAbortedError, [Spawn EnumDevices False True, AskElevate])"
    by code_simp
  have c: "get_device enabled_world touchscreen0 None False False True []
       = (Inr (Single [(''Instance ID'', ''touchscreen''), (''Status'', ''Started'')]),
          [Spawn EnumDevices False True])"
    by code_simp
  have d: "subscript (Single [(''Instance ID'', ''touchscreen''), (''Status'', ''Started'')])
             ''Instance ID'' = Inr ''touchscreen''"
    by code_simp
  have e: "run_ps enabled_world (PnpDevice (state_str ENABLE) ''touchscreen'') False False True
             False [Spawn EnumDevices False True]
       = (Inr (0, ''Device is already enabled.'', []),
          [Spawn EnumDevices False True, Spawn enable_cmd False True])"
    by code_simp
  have f: "pnp_check_error (strip (lower ''Device is already enabled.'') @ nl @ strip (lower []))
         None None = Inl DevicePropertyExistsError"
    by code_simp
  have g: "observers touchscreen0 = [1, 2]" "state_str ENABLE = ''enable''"
    "on_update enabled_world t = None" for t
    by (simp_all add: touchscreen0_def state_str_def enabled_world_def)
  from toggle_notifies_once [of enabled_world touchscreen0 ENABLE DEVICE False True "[]"
         "[Spawn EnumDevices False True, Spawn enable_cmd False True, Update 1, Update 2]"
         DeviceOperationAbortedError
         "Single [(''Instance ID'', ''touchscreen''), (''Status'', ''Started'')]"
         "[Spawn EnumDevices False True]" "''touchscreen''" 0 "''Device is already enabled.''" "[]"
         "[Spawn EnumDevices False True, Spawn enable_cmd False True]"]
       a b c d e f g
  show ?thesis by (simp add: enable_cmd_def)
qed

text \<open>
  C3 as stated fails: on the machine whose second observer fails, the command answers
  that the device is enabled already, and yet \<open>toggle\<close> raises, after both observers
  have been called.
\<close>

theorem toggle_raises_after_notifying_counterexample:
  "pnp_check_error (strip (lower ''Device is already enabled.'') @ nl @ strip (lower []))
     None None = Inl DevicePropertyExistsError
   \<and> u_toggle touchy_world touchscreen0 ENABLE DEVICE False True []
       = (Inr (), [Spawn EnumDevices False True, Spawn enable_cmd False True])
   \<and> toggle touchy_world touchscreen0 ENABLE DEVICE False True []
       = (Inl DeviceNotFoundError,
          [Spawn EnumDevices False True, Spawn enable_cmd False True, Update 1, Update 2])"
  by code_simp

end
